theory Spec2Isabelle
  imports Complex_Main "HOL-Library.AList"
begin

section \<open>Python values, errors and arrays\<close>

text \<open>
  The embedding follows \<^verbatim>\<open>pmd_beamphysics/fields/corrector_modeling.py\<close> and
  \<^verbatim>\<open>pmd_beamphysics/fields/fieldmesh.py\<close>.

  Numbers: a Python/numpy float is a \<^typ>\<open>real\<close> (rounding and overflow are not
  modelled). The one non-finite value the field code produces, the NaN of the division
  \<^verbatim>\<open>e2 / e2_norm\<close> at an observation point on the wire's line, is \<^term>\<open>None\<close> in the
  type \<open>flt\<close> of array elements, and it propagates through sums as a NaN does.

  Exceptions: every \<^verbatim>\<open>raise\<close> and failing \<^verbatim>\<open>assert\<close> is an \<^term>\<open>Inl\<close> of the
  type \<open>error\<close>, named after the Python exception class. Plotting calls
  (\<^verbatim>\<open>plot_3d_vector\<close>, \<^verbatim>\<open>plt.gca\<close>, the \<^verbatim>\<open>elev\<close>, \<^verbatim>\<open>azim\<close> and \<^verbatim>\<open>ax\<close> arguments) only
  draw and are left out; the flags that change what is returned are kept.
\<close>

datatype error =
    AssertionError string
  | ValueError string
  | TypeError
  | IndexError
  | KeyError string
  | AttributeError string
  | RuntimeError

definition bindE :: "error + 'a \<Rightarrow> ('a \<Rightarrow> error + 'b) \<Rightarrow> error + 'b" where
  "bindE m f = (case m of Inl e \<Rightarrow> Inl e | Inr v \<Rightarrow> f v)"

type_synonym vec3 = "real \<times> real \<times> real"
type_synonym flt = "real option"
type_synonym 'a arr3 = "'a list list list"

fun vadd :: "vec3 \<Rightarrow> vec3 \<Rightarrow> vec3" where
  "vadd (a1, a2, a3) (b1, b2, b3) = (a1 + b1, a2 + b2, a3 + b3)"

fun vsub :: "vec3 \<Rightarrow> vec3 \<Rightarrow> vec3" where
  "vsub (a1, a2, a3) (b1, b2, b3) = (a1 - b1, a2 - b2, a3 - b3)"

fun vscale :: "real \<Rightarrow> vec3 \<Rightarrow> vec3" where
  "vscale s (a1, a2, a3) = (s * a1, s * a2, s * a3)"

fun vdivs :: "vec3 \<Rightarrow> real \<Rightarrow> vec3" where
  "vdivs (a1, a2, a3) s = (a1 / s, a2 / s, a3 / s)"

fun dot :: "vec3 \<Rightarrow> vec3 \<Rightarrow> real" where
  "dot (a1, a2, a3) (b1, b2, b3) = a1 * b1 + a2 * b2 + a3 * b3"

fun cross :: "vec3 \<Rightarrow> vec3 \<Rightarrow> vec3" where
  "cross (a1, a2, a3) (b1, b2, b3) =
     (a2 * b3 - a3 * b2, a3 * b1 - a1 * b3, a1 * b2 - a2 * b1)"

text \<open>\<^verbatim>\<open>np.linalg.norm\<close> of a 3-vector.\<close>

fun norm3 :: "vec3 \<Rightarrow> real" where
  "norm3 (a1, a2, a3) = sqrt (a1\<^sup>2 + a2\<^sup>2 + a3\<^sup>2)"

text \<open>Elementwise operations on 3-dimensional arrays (nested lists, first axis outermost).\<close>

definition arr3_map :: "('a \<Rightarrow> 'b) \<Rightarrow> 'a arr3 \<Rightarrow> 'b arr3" where
  "arr3_map f A = map (map (map f)) A"

definition arr3_map2 :: "('a \<Rightarrow> 'b \<Rightarrow> 'c) \<Rightarrow> 'a arr3 \<Rightarrow> 'b arr3 \<Rightarrow> 'c arr3" where
  "arr3_map2 f A B = map2 (map2 (map2 f)) A B"

definition same_shape :: "'a arr3 \<Rightarrow> 'b arr3 \<Rightarrow> bool" where
  "same_shape A B = (map (map length) A = map (map length) B)"

definition in_range :: "'a arr3 \<Rightarrow> nat \<Rightarrow> nat \<Rightarrow> nat \<Rightarrow> bool" where
  "in_range A i j k = (i < length A \<and> j < length (A ! i) \<and> k < length (A ! i ! j))"

text \<open>\<^verbatim>\<open>np.stack((x, y, z), axis=-1)\<close>: the arrays must have one shape, else ValueError.\<close>

definition stack :: "real arr3 \<Rightarrow> real arr3 \<Rightarrow> real arr3 \<Rightarrow> error + vec3 arr3" where
  "stack x y z =
     (if same_shape x y \<and> same_shape x z
      then Inr (arr3_map2 Pair x (arr3_map2 Pair y z))
      else Inl (ValueError ''all input arrays must have the same shape''))"

text \<open>Sum of two float arrays of one shape; a NaN operand gives a NaN.\<close>

fun fadd :: "flt \<Rightarrow> flt \<Rightarrow> flt" where
  "fadd (Some a) (Some b) = Some (a + b)"
| "fadd _ _ = None"

definition arr_add :: "flt arr3 \<Rightarrow> flt arr3 \<Rightarrow> flt arr3" where
  "arr_add A B = arr3_map2 fadd A B"

section \<open>The straight wire\<close>

text \<open>
  The body of \<^verbatim>\<open>bfield_from_thin_straight_wire\<close> at one observation point \<open>P\<close> (the
  source computes it for the whole array at once). \<open>u0\<close> is \<^verbatim>\<open>scipy.constants.mu_0\<close>,
  a parameter here. On the line of the wire \<^verbatim>\<open>e2_norm\<close> is 0 and \<^verbatim>\<open>e2 / e2_norm\<close> is
  NaN in every component, and so are \<^verbatim>\<open>e3\<close> and \<^verbatim>\<open>B\<close>.
\<close>

definition bfield_point :: "real \<Rightarrow> vec3 \<Rightarrow> vec3 \<Rightarrow> real \<Rightarrow> vec3 \<Rightarrow> flt \<times> flt \<times> flt" where
  "bfield_point u0 p1 p2 current P =
     (let L = vsub p2 p1;
          Lhat = vdivs L (norm3 L);
          tmin = dot (vsub P p1) Lhat;
          lmin = vadd p1 (vscale tmin Lhat);
          e1 = Lhat;
          e2 = vsub P lmin;
          e2_norm = norm3 e2
      in if e2_norm = 0 then (None, None, None)
         else
           (let e2 = vdivs e2 e2_norm;
                e3 = cross e1 e2;
                x1 = dot (vsub p1 lmin) e1;
                x2 = dot (vsub p2 lmin) e1;
                R = e2_norm;
                B0 = (u0 * current / (4 * pi * R)) *
                       (x2 / sqrt (x2\<^sup>2 + R\<^sup>2) - x1 / sqrt (x1\<^sup>2 + R\<^sup>2));
                B = vscale B0 e3
            in (Some (fst B), Some (fst (snd B)), Some (snd (snd B)))))"

text \<open>
  \<^verbatim>\<open>bfield_from_thin_straight_wire(x, y, z, p1, p2, current, plot_wire, ..., return_axes)\<close>.
  The assertion comes first. With \<^verbatim>\<open>plot_wire and return_axes\<close> the source evaluates a
  tuple and returns nothing, which is Python's \<^verbatim>\<open>None\<close>: the result \<^term>\<open>Inr None\<close>.
\<close>

definition bfield_from_thin_straight_wire ::
  "real \<Rightarrow> real arr3 \<Rightarrow> real arr3 \<Rightarrow> real arr3 \<Rightarrow> vec3 \<Rightarrow> vec3 \<Rightarrow> real \<Rightarrow> bool \<Rightarrow> bool
     \<Rightarrow> error + (flt arr3 \<times> flt arr3 \<times> flt arr3) option" where
  "bfield_from_thin_straight_wire u0 x y z p1 p2 current plot_wire return_axes =
     (if norm3 (vsub p2 p1) > 0
      then bindE (stack x y z) (\<lambda>P.
        let B = arr3_map (bfield_point u0 p1 p2 current) P
        in if plot_wire \<and> return_axes then Inr None
           else Inr (Some (arr3_map fst B, arr3_map (\<lambda>b. fst (snd b)) B,
                           arr3_map (\<lambda>b. snd (snd b)) B)))
      else Inl (AssertionError ''Line must be specified by 2 distinct points''))"

text \<open>
  A caller that unpacks the result (\<^verbatim>\<open>Bx, By, Bz = bfield_from_thin_straight_wire(...)\<close>) gets
  a TypeError when the result is \<^verbatim>\<open>None\<close>.
\<close>

type_synonym field3 = "flt arr3 \<times> flt arr3 \<times> flt arr3"

definition unpack3 :: "error + field3 option \<Rightarrow> error + field3" where
  "unpack3 r = bindE r (\<lambda>v. case v of None \<Rightarrow> Inl TypeError | Some t \<Rightarrow> Inr t)"

text \<open>The componentwise sum \<^verbatim>\<open>(Bx1+Bx2, By1+By2, Bz1+Bz2)\<close> of two fields.\<close>

definition add3 :: "field3 \<Rightarrow> field3 \<Rightarrow> field3" where
  "add3 A B = (arr_add (fst A) (fst B), arr_add (fst (snd A)) (fst (snd B)),
               arr_add (snd (snd A)) (snd (snd B)))"

section \<open>Rectangular coil and rectangular corrector\<close>

text \<open>
  \<^verbatim>\<open>bfield_from_thin_rectangular_coil(X, Y, Z, a, b, y0, current)\<close>: four wires, each
  called with \<^verbatim>\<open>plot_wire=False\<close>, summed left to right.
\<close>

definition bfield_from_thin_rectangular_coil ::
  "real \<Rightarrow> real arr3 \<Rightarrow> real arr3 \<Rightarrow> real arr3 \<Rightarrow> real \<Rightarrow> real \<Rightarrow> real \<Rightarrow> real \<Rightarrow> error + field3" where
  "bfield_from_thin_rectangular_coil u0 X Y Z a b y0 current =
     (let p1 = (- a / 2, y0, - b / 2);
          p2 = (a / 2, y0, - b / 2);
          p3 = (a / 2, y0, b / 2);
          p4 = (- a / 2, y0, b / 2)
      in bindE (unpack3 (bfield_from_thin_straight_wire u0 X Y Z p1 p2 current False False)) (\<lambda>B1.
         bindE (unpack3 (bfield_from_thin_straight_wire u0 X Y Z p2 p3 current False False)) (\<lambda>B2.
         bindE (unpack3 (bfield_from_thin_straight_wire u0 X Y Z p3 p4 current False False)) (\<lambda>B3.
         bindE (unpack3 (bfield_from_thin_straight_wire u0 X Y Z p4 p1 current False False)) (\<lambda>B4.
           Inr (add3 (add3 (add3 B1 B2) B3) B4))))))"

text \<open>\<^verbatim>\<open>bfield_from_thin_rectangular_corrector(X, Y, Z, a, b, h, current)\<close>.\<close>

definition bfield_from_thin_rectangular_corrector ::
  "real \<Rightarrow> real arr3 \<Rightarrow> real arr3 \<Rightarrow> real arr3 \<Rightarrow> real \<Rightarrow> real \<Rightarrow> real \<Rightarrow> real \<Rightarrow> error + field3" where
  "bfield_from_thin_rectangular_corrector u0 X Y Z a b h current =
     bindE (bfield_from_thin_rectangular_coil u0 X Y Z a b (- h / 2) current) (\<lambda>B1.
     bindE (bfield_from_thin_rectangular_coil u0 X Y Z a b (h / 2) current) (\<lambda>B2.
       Inr (add3 B1 B2)))"

section \<open>Arcs and saddle coils\<close>

text \<open>
  \<^verbatim>\<open>rotate_around_e3(theta)\<close>, as rows. The source's last row is \<^verbatim>\<open>[0,0,0]\<close> (its
  docstring shows \<^verbatim>\<open>[0,0,1]\<close>); the model keeps the row of the code.
\<close>

definition rotate_around_e3 :: "real \<Rightarrow> vec3 \<times> vec3 \<times> vec3" where
  "rotate_around_e3 theta =
     (let C = cos theta; S = sin theta in ((C, - S, 0), (S, C, 0), (0, 0, 0)))"

text \<open>\<^verbatim>\<open>np.matmul\<close> of a 3x3 matrix and a 3-vector.\<close>

definition matmul :: "vec3 \<times> vec3 \<times> vec3 \<Rightarrow> vec3 \<Rightarrow> vec3" where
  "matmul M v = (dot (fst M) v, dot (fst (snd M)) v, dot (snd (snd M)) v)"

text \<open>\<^verbatim>\<open>np.isclose(a, b)\<close> with the default tolerances rtol = 1e-5 and atol = 1e-8.\<close>

definition isclose :: "real \<Rightarrow> real \<Rightarrow> bool" where
  "isclose a b = (\<bar>a - b\<bar> \<le> 1 / 10 ^ 8 + (1 / 10 ^ 5) * \<bar>b\<bar>)"

text \<open>
  \<^verbatim>\<open>np.linspace(start, stop, num)\<close>. A negative \<^verbatim>\<open>num\<close> is rejected first; a
  \<^verbatim>\<open>None\<close> bound then fails in the arithmetic. With \<^verbatim>\<open>num > 1\<close> the last sample is set
  to \<^verbatim>\<open>stop\<close>.
\<close>

definition linspace :: "real option \<Rightarrow> real option \<Rightarrow> int \<Rightarrow> error + real list" where
  "linspace start stop num =
     (if num < 0 then Inl (ValueError ''Number of samples must be non-negative.'')
      else case (start, stop) of
        (Some a, Some b) \<Rightarrow>
          (let n = nat num;
               d = n - 1;
               delta = b - a;
               y = map (\<lambda>i. if 0 < d then real i * (delta / real d) + a
                              else real i * delta + a) [0..<n]
           in Inr (if 1 < n then y[n - 1 := b] else y))
      | _ \<Rightarrow> Inl TypeError)"

text \<open>\<^verbatim>\<open>get_arc_vectors(h, R, theta, npts, arc_e3)\<close>: the points of the arc.\<close>

definition get_arc_vectors :: "real \<Rightarrow> real \<Rightarrow> real \<Rightarrow> int \<Rightarrow> vec3 \<Rightarrow> error + vec3 list" where
  "get_arc_vectors h R theta npts arc_e3 =
     (let phi = (pi - theta) / 2;
          arc_e1 = matmul (rotate_around_e3 phi) (1, 0, 0)
      in if isclose (dot arc_e1 arc_e3) 0
         then bindE (linspace (Some 0) (Some theta) npts) (\<lambda>ths.
                Inr (map (\<lambda>th. vadd (0, 0, h)
                                 (vscale R (matmul (rotate_around_e3 th) arc_e1))) ths))
         else Inl (AssertionError []))"

text \<open>\<^verbatim>\<open>np.zeros(X.shape)\<close>.\<close>

definition zeros :: "'a arr3 \<Rightarrow> flt arr3" where
  "zeros A = arr3_map (\<lambda>_. Some 0) A"

text \<open>
  The loop of \<^verbatim>\<open>bfield_from_thin_wire_arc\<close> over \<^verbatim>\<open>ii in range(ps.shape[0]-1)\<close>, with
  \<^verbatim>\<open>p1 = ps[ii]\<close> and \<^verbatim>\<open>p2 = ps[ii+1]\<close>: a recursion over the remaining points.
\<close>

fun arc_loop ::
  "real \<Rightarrow> real arr3 \<Rightarrow> real arr3 \<Rightarrow> real arr3 \<Rightarrow> real \<Rightarrow> bool \<Rightarrow> vec3 list \<Rightarrow> field3 \<Rightarrow> error + field3" where
  "arc_loop u0 X Y Z current plot_wire (p1 # p2 # ps) B =
     bindE (unpack3 (bfield_from_thin_straight_wire u0 X Y Z p1 p2 current plot_wire False)) (\<lambda>Bii.
       arc_loop u0 X Y Z current plot_wire (p2 # ps) (add3 B Bii))"
| "arc_loop u0 X Y Z current plot_wire ps B = Inr B"

definition bfield_from_thin_wire_arc ::
  "real \<Rightarrow> real arr3 \<Rightarrow> real arr3 \<Rightarrow> real arr3 \<Rightarrow> real \<Rightarrow> real \<Rightarrow> real \<Rightarrow> int \<Rightarrow> real \<Rightarrow> bool
     \<Rightarrow> error + field3" where
  "bfield_from_thin_wire_arc u0 X Y Z h R theta npts current plot_wire =
     bindE (get_arc_vectors h R theta npts (0, 0, 1)) (\<lambda>ps.
       arc_loop u0 X Y Z current plot_wire ps (zeros X, zeros Y, zeros Z))"

text \<open>\<^verbatim>\<open>bfield_from_thin_saddle_coil(X, Y, Z, L, R, theta, current, npts, plot_wire)\<close>.\<close>

definition bfield_from_thin_saddle_coil ::
  "real \<Rightarrow> real arr3 \<Rightarrow> real arr3 \<Rightarrow> real arr3 \<Rightarrow> real \<Rightarrow> real \<Rightarrow> real \<Rightarrow> real \<Rightarrow> int \<Rightarrow> bool
     \<Rightarrow> error + field3" where
  "bfield_from_thin_saddle_coil u0 X Y Z L R theta current npts plot_wire =
     (let phi = (pi - theta) / 2;
          B = (zeros X, zeros Y, zeros Z)
      in bindE (bfield_from_thin_wire_arc u0 X Y Z (- L / 2) R theta npts current plot_wire) (\<lambda>A1.
         bindE (bfield_from_thin_wire_arc u0 X Y Z (L / 2) R (- theta) npts current plot_wire) (\<lambda>A2.
         let B = add3 B (add3 A1 A2);
             p11 = (R * cos phi, R * sin phi, L / 2);
             p21 = (R * cos phi, R * sin phi, - L / 2)
         in bindE (unpack3 (bfield_from_thin_straight_wire u0 X Y Z p11 p21 current plot_wire False)) (\<lambda>S1.
            let p12 = (- R * cos phi, R * sin phi, - L / 2);
                p22 = (- R * cos phi, R * sin phi, L / 2)
            in bindE (unpack3 (bfield_from_thin_straight_wire u0 X Y Z p12 p22 current plot_wire False)) (\<lambda>S2.
               Inr (add3 B (add3 S1 S2)))))))"

text \<open>\<^verbatim>\<open>bfield_from_thin_saddle_corrector(X, Y, Z, L, R, theta, current, npts, plot_wire)\<close>.\<close>

definition bfield_from_thin_saddle_corrector ::
  "real \<Rightarrow> real arr3 \<Rightarrow> real arr3 \<Rightarrow> real arr3 \<Rightarrow> real \<Rightarrow> real \<Rightarrow> real \<Rightarrow> real \<Rightarrow> int \<Rightarrow> bool
     \<Rightarrow> error + field3" where
  "bfield_from_thin_saddle_corrector u0 X Y Z L R theta current npts plot_wire =
     bindE (bfield_from_thin_saddle_coil u0 X Y Z L R theta current npts plot_wire) (\<lambda>B1.
     bindE (bfield_from_thin_saddle_coil u0 X Y Z (- L) (- R) theta current npts plot_wire) (\<lambda>B2.
       Inr (add3 B1 B2)))"

section \<open>The field mesh object\<close>

text \<open>
  Attribute values of a mesh are numbers, strings and tuples. A Python \<^verbatim>\<open>dict\<close> is an
  association list in insertion order, read with \<^const>\<open>map_of\<close>.
\<close>

datatype pyval = PStr string | PInt int | PFloat real | PTuple "pyval list"

text \<open>
  A \<^verbatim>\<open>FieldMesh\<close>: the two dictionaries of \<^verbatim>\<open>self._data\<close>, and the alias entries that
  \<^verbatim>\<open>__init__\<close> writes into \<^verbatim>\<open>self.__dict__\<close>.
\<close>

record FieldMesh =
  attrs :: "(string \<times> pyval) list"
  components :: "(string \<times> flt arr3) list"
  alias_dict :: "(string \<times> flt arr3) list"

text \<open>
  The loop \<^verbatim>\<open>for k in self.components: alias = component_alias[k]; self.__dict__[alias] = ...\<close>.
  The table \<^verbatim>\<open>component_alias\<close> is imported from \<^verbatim>\<open>pmd_beamphysics.readers\<close> and is a
  parameter here, as is \<^verbatim>\<open>component_from_alias\<close> below.
\<close>

fun bind_aliases ::
  "(string \<times> string) list \<Rightarrow> (string \<times> flt arr3) list \<Rightarrow> (string \<times> flt arr3) list
     \<Rightarrow> error + (string \<times> flt arr3) list" where
  "bind_aliases component_alias [] d = Inr d"
| "bind_aliases component_alias ((k, c) # rest) d =
     (case map_of component_alias k of
        None \<Rightarrow> Inl (KeyError k)
      | Some alias \<Rightarrow> bind_aliases component_alias rest (AList.update alias c d))"

text \<open>\<^verbatim>\<open>FieldMesh(data=data)\<close> with \<^verbatim>\<open>data = dict(attrs=attrs, components=components)\<close>.\<close>

definition FieldMesh_init ::
  "(string \<times> string) list \<Rightarrow> (string \<times> pyval) list \<Rightarrow> (string \<times> flt arr3) list \<Rightarrow> error + FieldMesh" where
  "FieldMesh_init component_alias data_attrs data_components =
     bindE (bind_aliases component_alias data_components []) (\<lambda>d.
       Inr \<lparr>attrs = data_attrs, components = data_components, alias_dict = d\<rparr>)"

text \<open>\<^verbatim>\<open>self.attrs[k]\<close>.\<close>

definition attr :: "FieldMesh \<Rightarrow> string \<Rightarrow> error + pyval" where
  "attr fm k = (case map_of (attrs fm) k of None \<Rightarrow> Inl (KeyError k) | Some v \<Rightarrow> Inr v)"

definition geometry :: "FieldMesh \<Rightarrow> error + pyval" where
  "geometry fm = attr fm ''gridGeometry''"

definition axis_labels_from_geometry :: "(string \<times> string list) list" where
  "axis_labels_from_geometry =
     [(''cartesian'', [''x'', ''y'', ''z'']), (''cylindrical'', [''r'', ''theta'', ''z''])]"

text \<open>
  \<^verbatim>\<open>axis_labels\<close>: \<^verbatim>\<open>axis_labels_from_geometry[self.geometry]\<close>. A geometry that is not a
  key of the table is a KeyError (for a value that is not a string its text is not
  modelled).
\<close>

definition axis_labels :: "FieldMesh \<Rightarrow> error + string list" where
  "axis_labels fm =
     bindE (geometry fm) (\<lambda>g.
       case g of
         PStr s \<Rightarrow> (case map_of axis_labels_from_geometry s of
                      None \<Rightarrow> Inl (KeyError s)
                    | Some labels \<Rightarrow> Inr labels)
       | _ \<Rightarrow> Inl (KeyError []))"

text \<open>The loop of \<^verbatim>\<open>axis_index\<close> over \<^verbatim>\<open>enumerate(self.axis_labels)\<close>.\<close>

fun find_axis :: "string list \<Rightarrow> string \<Rightarrow> nat \<Rightarrow> error + nat" where
  "find_axis [] key i = Inl (ValueError (''Axis not found: '' @ key))"
| "find_axis (name # names) key i = (if name = key then Inr i else find_axis names key (Suc i))"

definition axis_index :: "FieldMesh \<Rightarrow> string \<Rightarrow> error + nat" where
  "axis_index fm key = bindE (axis_labels fm) (\<lambda>labels. find_axis labels key 0)"

text \<open>
  Numeric attribute tuples as arrays (\<^verbatim>\<open>np.array(self.attrs[...])\<close>) and the properties
  \<^verbatim>\<open>min\<close>, \<^verbatim>\<open>delta\<close>, \<^verbatim>\<open>max\<close> and \<^verbatim>\<open>shape\<close>. The attributes the builders store are
  tuples of numbers; any other value is reported here as a TypeError.
\<close>

fun num :: "pyval \<Rightarrow> error + real" where
  "num (PInt i) = Inr (of_int i)"
| "num (PFloat r) = Inr r"
| "num _ = Inl TypeError"

fun mapE :: "('a \<Rightarrow> error + 'b) \<Rightarrow> 'a list \<Rightarrow> error + 'b list" where
  "mapE f [] = Inr []"
| "mapE f (x # xs) = bindE (f x) (\<lambda>y. bindE (mapE f xs) (\<lambda>ys. Inr (y # ys)))"

fun nums :: "pyval \<Rightarrow> error + real list" where
  "nums (PTuple vs) = mapE num vs"
| "nums _ = Inl TypeError"

fun items :: "pyval \<Rightarrow> error + pyval list" where
  "items (PTuple vs) = Inr vs"
| "items _ = Inl TypeError"

definition index :: "'a list \<Rightarrow> nat \<Rightarrow> error + 'a" where
  "index xs i = (if i < length xs then Inr (xs ! i) else Inl IndexError)"

definition mesh_min :: "FieldMesh \<Rightarrow> error + real list" where
  "mesh_min fm = bindE (attr fm ''gridOriginOffset'') nums"

definition mesh_delta :: "FieldMesh \<Rightarrow> error + real list" where
  "mesh_delta fm = bindE (attr fm ''gridSpacing'') nums"

definition mesh_shape :: "FieldMesh \<Rightarrow> error + pyval list" where
  "mesh_shape fm = bindE (attr fm ''gridSize'') items"

definition mesh_max :: "FieldMesh \<Rightarrow> error + real list" where
  "mesh_max fm =
     bindE (mesh_delta fm) (\<lambda>d.
     bindE (bindE (attr fm ''gridSize'') nums) (\<lambda>s.
     bindE (mesh_min fm) (\<lambda>m.
       if length d = length s \<and> length s = length m
       then Inr (map2 (\<lambda>ds mi. fst ds * (snd ds - 1) + mi) (zip d s) m)
       else Inl (ValueError ''operands could not be broadcast together''))))"

text \<open>\<^verbatim>\<open>coord_vec(key)\<close>: the axis index first, then \<^verbatim>\<open>np.linspace\<close>.\<close>

definition coord_vec :: "FieldMesh \<Rightarrow> string \<Rightarrow> error + real list" where
  "coord_vec fm key =
     bindE (axis_index fm key) (\<lambda>i.
     bindE (bindE (mesh_min fm) (\<lambda>m. index m i)) (\<lambda>lo.
     bindE (bindE (mesh_max fm) (\<lambda>m. index m i)) (\<lambda>hi.
     bindE (bindE (mesh_shape fm) (\<lambda>s. index s i)) (\<lambda>n.
       case n of PInt k \<Rightarrow> linspace (Some lo) (Some hi) k | _ \<Rightarrow> Inl TypeError))))"

text \<open>
  \<^verbatim>\<open>__getitem__\<close>. The first two lookups are \<open>getitem_stored\<close>. The property \<^verbatim>\<open>B\<close> reads
  \<^verbatim>\<open>self['Br']\<close> and \<^verbatim>\<open>self['Bz']\<close>, keys that are neither \<^verbatim>\<open>'E'\<close> nor \<^verbatim>\<open>'B'\<close>, so
  these inner lookups end in the ValueError of the last line (\<open>getitem_plain\<close>). The
  property \<^verbatim>\<open>E\<close> reads the alias attributes \<^verbatim>\<open>self.Er\<close> and \<^verbatim>\<open>self.Ez\<close>. Outside
  cylindrical geometry both properties execute a bare \<^verbatim>\<open>raise\<close>, a RuntimeError.
\<close>

definition getitem_stored :: "(string \<times> string) list \<Rightarrow> FieldMesh \<Rightarrow> string \<Rightarrow> flt arr3 option" where
  "getitem_stored component_from_alias fm key =
     (case map_of (components fm) key of
        Some c \<Rightarrow> Some c
      | None \<Rightarrow>
          (case map_of component_from_alias key of
             Some cname \<Rightarrow> map_of (components fm) cname
           | None \<Rightarrow> None))"

definition getitem_plain :: "(string \<times> string) list \<Rightarrow> FieldMesh \<Rightarrow> string \<Rightarrow> error + flt arr3" where
  "getitem_plain component_from_alias fm key =
     (case getitem_stored component_from_alias fm key of
        Some c \<Rightarrow> Inr c
      | None \<Rightarrow> Inl (ValueError (''Key not available: '' @ key)))"

fun fhypot :: "flt \<Rightarrow> flt \<Rightarrow> flt" where
  "fhypot (Some a) (Some b) = Some (sqrt (a\<^sup>2 + b\<^sup>2))"
| "fhypot _ _ = None"

definition getattr_alias :: "FieldMesh \<Rightarrow> string \<Rightarrow> error + flt arr3" where
  "getattr_alias fm name =
     (case map_of (alias_dict fm) name of None \<Rightarrow> Inl (AttributeError name) | Some c \<Rightarrow> Inr c)"

definition mesh_B :: "(string \<times> string) list \<Rightarrow> FieldMesh \<Rightarrow> error + flt arr3" where
  "mesh_B component_from_alias fm =
     bindE (geometry fm) (\<lambda>g.
       if g = PStr ''cylindrical''
       then bindE (getitem_plain component_from_alias fm ''Br'') (\<lambda>br.
            bindE (getitem_plain component_from_alias fm ''Bz'') (\<lambda>bz.
              Inr (arr3_map2 fhypot br bz)))
       else Inl RuntimeError)"

definition mesh_E :: "FieldMesh \<Rightarrow> error + flt arr3" where
  "mesh_E fm =
     bindE (geometry fm) (\<lambda>g.
       if g = PStr ''cylindrical''
       then bindE (getattr_alias fm ''Er'') (\<lambda>er.
            bindE (getattr_alias fm ''Ez'') (\<lambda>ez.
              Inr (arr3_map2 fhypot (arr3_map (map_option abs) er) (arr3_map (map_option abs) ez))))
       else Inl RuntimeError)"

definition getitem :: "(string \<times> string) list \<Rightarrow> FieldMesh \<Rightarrow> string \<Rightarrow> error + flt arr3" where
  "getitem component_from_alias fm key =
     (case getitem_stored component_from_alias fm key of
        Some c \<Rightarrow> Inr c
      | None \<Rightarrow>
          if key = ''E'' then mesh_E fm
          else if key = ''B'' then mesh_B component_from_alias fm
          else Inl (ValueError (''Key not available: '' @ key)))"

section \<open>The mesh builders\<close>

text \<open>\<^verbatim>\<open>np.meshgrid(xs, ys, zs, indexing='ij')\<close>.\<close>

definition meshgrid :: "real list \<Rightarrow> real list \<Rightarrow> real list \<Rightarrow> real arr3 \<times> real arr3 \<times> real arr3" where
  "meshgrid xs ys zs =
     (map (\<lambda>x. map (\<lambda>y. map (\<lambda>z. x) zs) ys) xs,
      map (\<lambda>x. map (\<lambda>y. map (\<lambda>z. y) zs) ys) xs,
      map (\<lambda>x. map (\<lambda>y. map (\<lambda>z. z) zs) ys) xs)"

text \<open>
  \<^verbatim>\<open>Bx.shape\<close>. A nested list with an empty axis does not record the extents inside it
  (they read as 0); the builders reach \<^verbatim>\<open>.shape\<close> only after \<^verbatim>\<open>np.diff(xs)[0]\<close> and its
  two siblings succeeded, when every axis has at least two samples.
\<close>

definition shape3 :: "'a arr3 \<Rightarrow> nat \<times> nat \<times> nat" where
  "shape3 A =
     (length A,
      (case A of [] \<Rightarrow> 0 | r # _ \<Rightarrow> length r),
      (case A of [] \<Rightarrow> 0 | r # _ \<Rightarrow> (case r of [] \<Rightarrow> 0 | c # _ \<Rightarrow> length c)))"

text \<open>\<^verbatim>\<open>np.diff(xs)[0]\<close>: an IndexError with fewer than two samples.\<close>

definition diff0 :: "real list \<Rightarrow> error + real" where
  "diff0 xs = (case xs of x0 # x1 # _ \<Rightarrow> Inr (x1 - x0) | _ \<Rightarrow> Inl IndexError)"

text \<open>Arithmetic on an argument left at \<^verbatim>\<open>None\<close> is a TypeError.\<close>

definition need :: "'a option \<Rightarrow> error + 'a" where
  "need v = (case v of None \<Rightarrow> Inl TypeError | Some x \<Rightarrow> Inr x)"

text \<open>
  The block that the three builders repeat, from \<^verbatim>\<open>dx = np.diff(xs)[0]\<close> to
  \<^verbatim>\<open>return FieldMesh(data=data)\<close>. \<^verbatim>\<open>xs[0]\<close> is read after the three differences exist.
\<close>

definition assemble_fieldmesh ::
  "(string \<times> string) list \<Rightarrow> real list \<Rightarrow> real list \<Rightarrow> real list \<Rightarrow> field3 \<Rightarrow> error + FieldMesh" where
  "assemble_fieldmesh component_alias xs ys zs B =
     bindE (diff0 xs) (\<lambda>dx.
     bindE (diff0 ys) (\<lambda>dy.
     bindE (diff0 zs) (\<lambda>dz.
       let Bx = fst B; By = fst (snd B); Bz = snd (snd B);
           shape = shape3 Bx;
           data_attrs =
             [(''gridOriginOffset'', PTuple [PFloat (hd xs), PFloat (hd ys), PFloat (hd zs)]),
              (''gridSpacing'', PTuple [PFloat dx, PFloat dy, PFloat dz]),
              (''gridSize'', PTuple [PInt (int (fst shape)), PInt (int (fst (snd shape))),
                                     PInt (int (snd (snd shape)))]),
              (''eleAnchorPt'', PStr ''center''),
              (''gridGeometry'', PStr ''rectangular''),
              (''axisLabels'', PTuple [PStr ''x'', PStr ''y'', PStr ''z'']),
              (''gridLowerBound'', PTuple [PInt 0, PInt 0, PInt 0]),
              (''harmonic'', PInt 0),
              (''fundamentalFrequency'', PInt 0)];
           data_components =
             [(''magneticField/x'', Bx), (''magneticField/y'', By), (''magneticField/z'', Bz)]
       in FieldMesh_init component_alias data_attrs data_components)))"

text \<open>
  \<^verbatim>\<open>make_rectangular_dipole_corrector_fieldmesh(a, b, h, current, xmin, ..., nz)\<close>. An
  argument left at \<^verbatim>\<open>None\<close> fails where it is first used: a bound in \<^verbatim>\<open>np.linspace\<close>,
  \<^verbatim>\<open>h\<close> in \<^verbatim>\<open>-h/2\<close>, \<^verbatim>\<open>a\<close> and \<^verbatim>\<open>b\<close> in the corners of the coil.
\<close>

definition make_rectangular_dipole_corrector_fieldmesh ::
  "real \<Rightarrow> (string \<times> string) list \<Rightarrow> real option \<Rightarrow> real option \<Rightarrow> real option \<Rightarrow> real
     \<Rightarrow> real option \<Rightarrow> real option \<Rightarrow> int \<Rightarrow> real option \<Rightarrow> real option \<Rightarrow> int
     \<Rightarrow> real option \<Rightarrow> real option \<Rightarrow> int \<Rightarrow> error + FieldMesh" where
  "make_rectangular_dipole_corrector_fieldmesh u0 component_alias a b h current
       xmin xmax nx ymin ymax ny zmin zmax nz =
     bindE (linspace xmin xmax nx) (\<lambda>xs.
     bindE (linspace ymin ymax ny) (\<lambda>ys.
     bindE (linspace zmin zmax nz) (\<lambda>zs.
       let G = meshgrid xs ys zs; X = fst G; Y = fst (snd G); Z = snd (snd G)
       in bindE (need h) (\<lambda>h'.
          bindE (need a) (\<lambda>a'.
          bindE (need b) (\<lambda>b'.
          bindE (bfield_from_thin_rectangular_corrector u0 X Y Z a' b' h' current) (\<lambda>B.
            assemble_fieldmesh component_alias xs ys zs B)))))))"

text \<open>\<^verbatim>\<open>make_saddle_dipole_corrector_fieldmesh(R, L, theta, current, xmin, ..., nz, npts, plot_wire)\<close>.\<close>

definition make_saddle_dipole_corrector_fieldmesh ::
  "real \<Rightarrow> (string \<times> string) list \<Rightarrow> real option \<Rightarrow> real option \<Rightarrow> real option \<Rightarrow> real
     \<Rightarrow> real option \<Rightarrow> real option \<Rightarrow> int \<Rightarrow> real option \<Rightarrow> real option \<Rightarrow> int
     \<Rightarrow> real option \<Rightarrow> real option \<Rightarrow> int \<Rightarrow> int option \<Rightarrow> bool \<Rightarrow> error + FieldMesh" where
  "make_saddle_dipole_corrector_fieldmesh u0 component_alias R L theta current
       xmin xmax nx ymin ymax ny zmin zmax nz npts plot_wire =
     bindE (linspace xmin xmax nx) (\<lambda>xs.
     bindE (linspace ymin ymax ny) (\<lambda>ys.
     bindE (linspace zmin zmax nz) (\<lambda>zs.
       let G = meshgrid xs ys zs; X = fst G; Y = fst (snd G); Z = snd (snd G)
       in bindE (need L) (\<lambda>L'.
          bindE (need R) (\<lambda>R'.
          bindE (need theta) (\<lambda>theta'.
          bindE (need npts) (\<lambda>npts'.
          bindE (bfield_from_thin_saddle_corrector u0 X Y Z L' R' theta' current npts' plot_wire) (\<lambda>B.
            assemble_fieldmesh component_alias xs ys zs B))))))))"

text \<open>
  A bound left at \<^verbatim>\<open>None\<close> gets its default, computed from a shape parameter (which fails
  with a TypeError when that parameter is \<^verbatim>\<open>None\<close> too).
\<close>

definition dflt :: "real option \<Rightarrow> error + real \<Rightarrow> error + real option" where
  "dflt v d = (case v of None \<Rightarrow> bindE d (\<lambda>x. Inr (Some x)) | Some x \<Rightarrow> Inr (Some x))"

text \<open>
  \<^verbatim>\<open>make_dipole_corrector_fieldmesh(current, xmin, ..., nz, mode, a, b, h, R, L, theta, npts, plot_wire)\<close>.
  In rectangular mode the check of \<^verbatim>\<open>a\<close>, \<^verbatim>\<open>b\<close>, \<^verbatim>\<open>h\<close> comes first; in saddle mode the
  defaults of the bounds are computed before the check of \<^verbatim>\<open>R\<close>, \<^verbatim>\<open>L\<close>, \<^verbatim>\<open>theta\<close>.
\<close>

definition make_dipole_corrector_fieldmesh ::
  "real \<Rightarrow> (string \<times> string) list \<Rightarrow> real
     \<Rightarrow> real option \<Rightarrow> real option \<Rightarrow> int \<Rightarrow> real option \<Rightarrow> real option \<Rightarrow> int
     \<Rightarrow> real option \<Rightarrow> real option \<Rightarrow> int \<Rightarrow> string
     \<Rightarrow> real option \<Rightarrow> real option \<Rightarrow> real option
     \<Rightarrow> real option \<Rightarrow> real option \<Rightarrow> real option \<Rightarrow> int option \<Rightarrow> bool \<Rightarrow> error + FieldMesh" where
  "make_dipole_corrector_fieldmesh u0 component_alias current
       xmin xmax nx ymin ymax ny zmin zmax nz mode a b h R L theta npts plot_wire =
     (if mode = ''rectangular'' then
        (case (a, b, h) of
           (Some a', Some b', Some h') \<Rightarrow>
             (let f = 99 / 100;
                  xmin = (case xmin of None \<Rightarrow> Some (- f * a') | Some v \<Rightarrow> Some v);
                  ymin = (case ymin of None \<Rightarrow> Some (- f * h' / 2) | Some v \<Rightarrow> Some v);
                  zmin = (case zmin of None \<Rightarrow> Some (- 5 * b') | Some v \<Rightarrow> Some v);
                  xmax = (case xmax of None \<Rightarrow> Some (f * a') | Some v \<Rightarrow> Some v);
                  ymax = (case ymax of None \<Rightarrow> Some (f * h' / 2) | Some v \<Rightarrow> Some v);
                  zmax = (case zmax of None \<Rightarrow> Some (5 * b') | Some v \<Rightarrow> Some v)
              in make_rectangular_dipole_corrector_fieldmesh u0 component_alias a b h current
                   xmin xmax nx ymin ymax ny zmin zmax nz)
         | _ \<Rightarrow> Inl (ValueError
                  ''Parameters 'a', 'b', and 'h' must be provided for rectangular mode.''))
      else if mode = ''saddle'' then
        bindE (dflt xmin (bindE (need R) (\<lambda>r. Inr (- r)))) (\<lambda>xmin.
        bindE (dflt ymin (bindE (need R) (\<lambda>r. Inr (- r)))) (\<lambda>ymin.
        bindE (dflt zmin (bindE (need L) (\<lambda>l. Inr (- 5 * l / 2)))) (\<lambda>zmin.
        bindE (dflt xmax (bindE (need R) (\<lambda>r. Inr r))) (\<lambda>xmax.
        bindE (dflt ymax (bindE (need R) (\<lambda>r. Inr r))) (\<lambda>ymax.
        bindE (dflt zmax (bindE (need L) (\<lambda>l. Inr (5 * l / 2)))) (\<lambda>zmax.
          if R = None \<or> L = None \<or> theta = None
          then Inl (ValueError
                 ''Parameters 'R', 'L', and 'theta' must be provided for saddle mode.'')
          else make_saddle_dipole_corrector_fieldmesh u0 component_alias R L theta current
                 xmin xmax nx ymin ymax ny zmin zmax nz npts plot_wire))))))
      else Inl (ValueError ''Invalid mode. Choose either 'rectangular' or 'saddle'.''))"

text \<open>
  \<^verbatim>\<open>make_thin_straight_wire_fieldmesh(p1, p2, current, xmin, ..., nz, plot_wire)\<close>. The
  assertions on missing bounds come first (the counts are integers here).
\<close>

definition make_thin_straight_wire_fieldmesh ::
  "real \<Rightarrow> (string \<times> string) list \<Rightarrow> vec3 \<Rightarrow> vec3 \<Rightarrow> real
     \<Rightarrow> real option \<Rightarrow> real option \<Rightarrow> int \<Rightarrow> real option \<Rightarrow> real option \<Rightarrow> int
     \<Rightarrow> real option \<Rightarrow> real option \<Rightarrow> int \<Rightarrow> bool \<Rightarrow> error + FieldMesh" where
  "make_thin_straight_wire_fieldmesh u0 component_alias p1 p2 current
       xmin xmax nx ymin ymax ny zmin zmax nz plot_wire =
     (if xmin = None then Inl (AssertionError ''No xmin specified'')
      else if ymin = None then Inl (AssertionError ''No ymin specified'')
      else if zmin = None then Inl (AssertionError ''No zmin specified'')
      else if xmax = None then Inl (AssertionError ''No xmax specified'')
      else if ymax = None then Inl (AssertionError ''No ymax specified'')
      else if zmax = None then Inl (AssertionError ''No zmax specified'')
      else
        bindE (linspace xmin xmax nx) (\<lambda>xs.
        bindE (linspace ymin ymax ny) (\<lambda>ys.
        bindE (linspace zmin zmax nz) (\<lambda>zs.
          let G = meshgrid xs ys zs; X = fst G; Y = fst (snd G); Z = snd (snd G)
          in bindE (unpack3 (bfield_from_thin_straight_wire u0 X Y Z p1 p2 current plot_wire False)) (\<lambda>B.
               assemble_fieldmesh component_alias xs ys zs B)))))"

section \<open>The field of a wire in the words of the specification\<close>

text \<open>
  The foot of the perpendicular from \<open>P\<close> onto the line through \<open>p1\<close> and \<open>p2\<close>, the
  perpendicular distance, and the field \<open>B0 * e3\<close> built from them as the specification
  describes it.
\<close>

definition foot_of_perpendicular :: "vec3 \<Rightarrow> vec3 \<Rightarrow> vec3 \<Rightarrow> vec3" where
  "foot_of_perpendicular p1 p2 P =
     (let L = vsub p2 p1 in vadd p1 (vscale (dot (vsub P p1) L / dot L L) L))"

definition perp_distance :: "vec3 \<Rightarrow> vec3 \<Rightarrow> vec3 \<Rightarrow> real" where
  "perp_distance p1 p2 P = norm3 (vsub P (foot_of_perpendicular p1 p2 P))"

definition spec_wire_field :: "real \<Rightarrow> vec3 \<Rightarrow> vec3 \<Rightarrow> real \<Rightarrow> vec3 \<Rightarrow> vec3" where
  "spec_wire_field u0 p1 p2 I P =
     (let e1 = vdivs (vsub p2 p1) (norm3 (vsub p2 p1));
          F = foot_of_perpendicular p1 p2 P;
          R = perp_distance p1 p2 P;
          e2 = vdivs (vsub P F) R;
          e3 = cross e1 e2;
          x1 = dot (vsub p1 F) e1;
          x2 = dot (vsub p2 F) e1;
          B0 = (u0 * I / (4 * pi * R)) * (x2 / sqrt (x2\<^sup>2 + R\<^sup>2) - x1 / sqrt (x1\<^sup>2 + R\<^sup>2))
      in vscale B0 e3)"


text \<open>The three arrays that the straight-wire sampler returns for stacked points \<open>P\<close>.\<close>

definition wire_arrays :: "real \<Rightarrow> vec3 \<Rightarrow> vec3 \<Rightarrow> real \<Rightarrow> vec3 arr3 \<Rightarrow> flt arr3 \<times> flt arr3 \<times> flt arr3" where
  "wire_arrays u0 p1 p2 I P =
     (arr3_map fst (arr3_map (bfield_point u0 p1 p2 I) P),
      arr3_map (\<lambda>b. fst (snd b)) (arr3_map (bfield_point u0 p1 p2 I) P),
      arr3_map (\<lambda>b. snd (snd b)) (arr3_map (bfield_point u0 p1 p2 I) P))"


text \<open>A field whose three arrays have the shape of the grid \<open>X\<close>.\<close>

definition shaped :: "field3 \<Rightarrow> 'a arr3 \<Rightarrow> bool" where
  "shaped B X = (same_shape (fst B) X \<and> same_shape (fst (snd B)) X \<and> same_shape (snd (snd B)) X)"

text \<open>An array of shape \<open>(n1, n2, n3)\<close>.\<close>

definition has_shape :: "'a arr3 \<Rightarrow> nat \<Rightarrow> nat \<Rightarrow> nat \<Rightarrow> bool" where
  "has_shape A n1 n2 n3 = (map (map length) A = replicate n1 (replicate n2 n3))"

text \<open>The attribute dictionary that \<open>assemble_fieldmesh\<close> builds, as a function of its entries.\<close>

definition mesh_attrs :: "real \<Rightarrow> real \<Rightarrow> real \<Rightarrow> real \<Rightarrow> real \<Rightarrow> real \<Rightarrow> nat \<times> nat \<times> nat \<Rightarrow> (string \<times> pyval) list" where
  "mesh_attrs x0 y0 z0 dx dy dz shape =
     [(''gridOriginOffset'', PTuple [PFloat x0, PFloat y0, PFloat z0]),
      (''gridSpacing'', PTuple [PFloat dx, PFloat dy, PFloat dz]),
      (''gridSize'', PTuple [PInt (int (fst shape)), PInt (int (fst (snd shape))),
                             PInt (int (snd (snd shape)))]),
      (''eleAnchorPt'', PStr ''center''),
      (''gridGeometry'', PStr ''rectangular''),
      (''axisLabels'', PTuple [PStr ''x'', PStr ''y'', PStr ''z'']),
      (''gridLowerBound'', PTuple [PInt 0, PInt 0, PInt 0]),
      (''harmonic'', PInt 0),
      (''fundamentalFrequency'', PInt 0)]"

text \<open>
  The sum of a list of segment fields, accumulated onto \<open>B\<close> from left to right; a
  segment that failed makes the sum fail with its error.
\<close>

fun sum_fields :: "field3 \<Rightarrow> (error + field3) list \<Rightarrow> error + field3" where
  "sum_fields B [] = Inr B"
| "sum_fields B (s # ss) = bindE s (\<lambda>Bii. sum_fields (add3 B Bii) ss)"

text \<open>The point of the arc at azimuth \<open>phi + th\<close>.\<close>

definition arc_point :: "real \<Rightarrow> real \<Rightarrow> real \<Rightarrow> vec3" where
  "arc_point h R az = (R * cos az, R * sin az, h)"

text \<open>The three entries of a field at one index are numbers (none is a NaN).\<close>

definition finite_at :: "field3 \<Rightarrow> nat \<Rightarrow> nat \<Rightarrow> nat \<Rightarrow> bool" where
  "finite_at B i j k =
     (\<exists>v1 v2 v3. fst B ! i ! j ! k = Some v1 \<and> fst (snd B) ! i ! j ! k = Some v2 \<and>
                 snd (snd B) ! i ! j ! k = Some v3)"

section \<open>Basic facts\<close>

lemma norm3_nonneg: "0 \<le> norm3 v"
  by (cases v) simp

lemma norm3_pos_iff: "(0 < norm3 (vsub p2 p1)) = (p1 \<noteq> p2)"
proof (cases p1; cases p2)
  fix a1 a2 a3 b1 b2 b3 :: real
  assume p: "p1 = (a1, a2, a3)" "p2 = (b1, b2, b3)"
  have "(0 < (b1 - a1)\<^sup>2 + (b2 - a2)\<^sup>2 + (b3 - a3)\<^sup>2) = (\<not> (b1 = a1 \<and> b2 = a2 \<and> b3 = a3))"
    by (smt (verit) sum_power2_gt_zero_iff right_minus_eq zero_less_power2 zero_le_power2)
  then show ?thesis using p by auto
qed


lemma same_shape_refl: "same_shape A A" by (simp add: same_shape_def)
lemma same_shape_sym: "same_shape A B \<Longrightarrow> same_shape B A" by (simp add: same_shape_def)
lemma same_shape_trans: "same_shape A B \<Longrightarrow> same_shape B C \<Longrightarrow> same_shape A C" by (simp add: same_shape_def)

lemma same_shape_lengths:
  assumes "same_shape A B"
  shows "length A = length B"
    and "i < length A \<Longrightarrow> length (A ! i) = length (B ! i)"
    and "i < length A \<Longrightarrow> j < length (A ! i) \<Longrightarrow> length (A ! i ! j) = length (B ! i ! j)"
proof -
  from assms have eq: "map (map length) A = map (map length) B" by (simp add: same_shape_def)
  then show len: "length A = length B" by (rule map_eq_imp_length_eq)
  { assume i: "i < length A"
    have "map (map length) A ! i = map (map length) B ! i" using eq by simp
    then have row: "map length (A ! i) = map length (B ! i)" using i len by simp
    then show "length (A ! i) = length (B ! i)" by (rule map_eq_imp_length_eq)
    assume j: "j < length (A ! i)"
    have "map length (A ! i) ! j = map length (B ! i) ! j" using row by simp
    then show "length (A ! i ! j) = length (B ! i ! j)"
      using j \<open>length (A ! i) = length (B ! i)\<close> by simp }
qed

lemma same_shape_in_range: "same_shape A B \<Longrightarrow> in_range A i j k = in_range B i j k"
  unfolding in_range_def
  by (metis same_shape_lengths)

lemma same_shape_map [simp]: "same_shape (arr3_map f A) A"
  by (simp add: same_shape_def arr3_map_def comp_def)

lemma arr3_map_nth: "in_range A i j k \<Longrightarrow> arr3_map f A ! i ! j ! k = f (A ! i ! j ! k)"
  by (simp add: in_range_def arr3_map_def)

lemma same_shape_map2:
  assumes "same_shape A B" shows "same_shape (arr3_map2 f A B) A"
proof -
  have "map (map length) (map2 (map2 (map2 f)) A B) = map (map length) A"
  proof (rule nth_equalityI)
    show "length (map (map length) (map2 (map2 (map2 f)) A B)) = length (map (map length) A)"
      using same_shape_lengths(1)[OF assms] by simp
  next
    fix i assume "i < length (map (map length) (map2 (map2 (map2 f)) A B))"
    then have i: "i < length A" "i < length B" by simp_all
    have li: "length (A ! i) = length (B ! i)" using same_shape_lengths(2)[OF assms i(1)] .
    have "map length (map2 (map2 f) (A ! i) (B ! i)) = map length (A ! i)"
    proof (rule nth_equalityI)
      show "length (map length (map2 (map2 f) (A ! i) (B ! i))) = length (map length (A ! i))"
        using li by simp
    next
      fix j assume "j < length (map length (map2 (map2 f) (A ! i) (B ! i)))"
      then have j: "j < length (A ! i)" "j < length (B ! i)" by simp_all
      show "map length (map2 (map2 f) (A ! i) (B ! i)) ! j = map length (A ! i) ! j"
        using j same_shape_lengths(3)[OF assms i(1) j(1)] by simp
    qed
    then show "map (map length) (map2 (map2 (map2 f)) A B) ! i = map (map length) A ! i"
      using i by simp
  qed
  then show ?thesis by (simp add: same_shape_def arr3_map2_def)
qed

lemma arr3_map2_nth:
  assumes "same_shape A B" "in_range A i j k"
  shows "arr3_map2 f A B ! i ! j ! k = f (A ! i ! j ! k) (B ! i ! j ! k)"
proof -
  from assms(2) have a: "i < length A" "j < length (A ! i)" "k < length (A ! i ! j)"
    by (simp_all add: in_range_def)
  from assms(2) same_shape_in_range[OF assms(1)] have "in_range B i j k" by simp
  then have b: "i < length B" "j < length (B ! i)" "k < length (B ! i ! j)"
    by (simp_all add: in_range_def)
  show ?thesis using a b by (simp add: arr3_map2_def)
qed

lemma stack_Inr:
  assumes "same_shape x y" "same_shape x z"
  shows "\<exists>P. stack x y z = Inr P \<and> same_shape P x \<and>
     (\<forall>i j k. in_range x i j k \<longrightarrow> P ! i ! j ! k = (x ! i ! j ! k, y ! i ! j ! k, z ! i ! j ! k))"
proof -
  have yz: "same_shape y z" using assms same_shape_sym same_shape_trans by blast
  have xyz: "same_shape x (arr3_map2 Pair y z)"
    using same_shape_map2[OF yz] assms(1) same_shape_sym same_shape_trans by blast
  let ?P = "arr3_map2 Pair x (arr3_map2 Pair y z)"
  have 1: "stack x y z = Inr ?P" using assms by (simp add: stack_def)
  have 2: "same_shape ?P x" using same_shape_map2[OF xyz] .
  have 3: "?P ! i ! j ! k = (x ! i ! j ! k, y ! i ! j ! k, z ! i ! j ! k)" if r: "in_range x i j k" for i j k
  proof -
    have ry: "in_range y i j k" using r same_shape_in_range[OF assms(1)] by simp
    show ?thesis using arr3_map2_nth[OF xyz r, of Pair] arr3_map2_nth[OF yz ry, of Pair] by simp
  qed
  show ?thesis using 1 2 3 by blast
qed

lemma dot_self: "dot v v = (norm3 v)\<^sup>2"
  by (cases v) (simp add: power2_eq_square)

lemma dot_self_pos: "p1 \<noteq> p2 \<Longrightarrow> 0 < dot (vsub p2 p1) (vsub p2 p1)"
  using norm3_pos_iff[of p2 p1] by (simp add: dot_self)

lemma vdivs_vscale: "vdivs v s = vscale (1 / s) v"
  by (cases v) simp

lemma dot_vscale_right: "dot a (vscale s b) = s * dot a b"
  by (cases a; cases b) (simp add: algebra_simps)

lemma dot_vscale_left: "dot (vscale s a) b = s * dot a b"
  by (cases a; cases b) (simp add: algebra_simps)

lemma vscale_vscale: "vscale s (vscale t v) = vscale (s * t) v"
  by (cases v) (simp add: algebra_simps)

lemma lmin_eq_foot:
  assumes "p1 \<noteq> p2"
  shows "vadd p1 (vscale (dot (vsub P p1) (vdivs (vsub p2 p1) (norm3 (vsub p2 p1))))
                        (vdivs (vsub p2 p1) (norm3 (vsub p2 p1))))
         = foot_of_perpendicular p1 p2 P"
proof -
  define L where "L = vsub p2 p1"
  define n where "n = norm3 L"
  define q where "q = dot (vsub P p1) L"
  have n: "n \<noteq> 0" using norm3_pos_iff[of p2 p1] assms by (simp add: n_def L_def)
  have LL: "dot L L = n * n" by (simp add: dot_self n_def power2_eq_square)
  have "(1 / n) * q * (1 / n) = q / dot L L"
    using n by (simp add: LL)
  then have "vscale ((1 / n) * q * (1 / n)) L = vscale (q / dot L L) L" by (rule arg_cong)
  moreover have "dot (vsub P p1) (vdivs L n) = (1 / n) * q"
    by (simp only: vdivs_vscale dot_vscale_right q_def)
  ultimately have "vscale (dot (vsub P p1) (vdivs L n)) (vdivs L n) = vscale (q / dot L L) L"
    by (simp only: vdivs_vscale[of L n] vscale_vscale)
  then show ?thesis
    by (simp only: foot_of_perpendicular_def Let_def L_def n_def q_def)
qed

lemma vsub_vadd: "vsub P (vadd p v) = vsub (vsub P p) v"
  by (cases P; cases p; cases v) simp

lemma dot_vsub_left: "dot (vsub a b) c = dot a c - dot b c"
  by (cases a; cases b; cases c) (simp add: algebra_simps)

lemma vsub_swap: "vsub p1 p2 = vscale (- 1) (vsub p2 p1)"
  by (cases p1; cases p2) simp

lemma norm3_vsub_swap: "norm3 (vsub p1 p2) = norm3 (vsub p2 p1)"
  by (cases p1; cases p2) (simp add: power2_commute)

lemma vadd_vsub_cancel: "vadd p1 (vsub p2 p1) = p2"
  by (cases p1; cases p2) simp

lemma vadd_vscale_shift: "vadd (vadd p L) (vscale (t - 1) L) = vadd p (vscale t L)"
  by (cases p; cases L) (simp add: algebra_simps)

lemma foot_perp:
  assumes "p1 \<noteq> p2"
  shows "dot (vsub P (foot_of_perpendicular p1 p2 P)) (vsub p2 p1) = 0"
proof -
  have d: "dot (vsub p2 p1) (vsub p2 p1) \<noteq> 0" using dot_self_pos[OF assms] by simp
  show ?thesis using d
    by (simp add: foot_of_perpendicular_def Let_def vsub_vadd dot_vsub_left dot_vscale_left)
qed

lemma foot_sym:
  assumes "p1 \<noteq> p2"
  shows "foot_of_perpendicular p2 p1 P = foot_of_perpendicular p1 p2 P"
proof -
  define L where "L = vsub p2 p1"
  define Q where "Q = vsub P p1"
  define t where "t = dot Q L / dot L L"
  have d: "dot L L \<noteq> 0" using dot_self_pos[OF assms] by (simp add: L_def)
  have P2: "vsub P p2 = vsub Q L"
    by (cases P; cases p1; cases p2) (simp add: Q_def L_def)
  have sw: "vsub p1 p2 = vscale (- 1) L" unfolding L_def by (rule vsub_swap)
  have "dot (vsub Q L) (vscale (- 1) L) / dot (vscale (- 1) L) (vscale (- 1) L)
        = - ((dot Q L - dot L L) / dot L L)"
    by (simp add: dot_vsub_left dot_vscale_left dot_vscale_right)
      (metis minus_diff_eq minus_divide_left)
  also have "\<dots> = - (t - 1)" using d by (simp add: t_def diff_divide_distrib)
  finally have c: "dot (vsub Q L) (vscale (- 1) L) / dot (vscale (- 1) L) (vscale (- 1) L) = - (t - 1)" .
  have "foot_of_perpendicular p2 p1 P = vadd p2 (vscale (- (t - 1)) (vscale (- 1) L))"
    by (simp only: foot_of_perpendicular_def Let_def sw P2 c)
  also have "\<dots> = vadd (vadd p1 L) (vscale (t - 1) L)"
    by (simp add: vscale_vscale L_def vadd_vsub_cancel)
  also have "\<dots> = vadd p1 (vscale t L)" by (rule vadd_vscale_shift)
  finally show ?thesis by (simp add: foot_of_perpendicular_def Let_def t_def Q_def L_def)
qed

lemma bfield_point_eq:
  assumes "p1 \<noteq> p2"
  shows "bfield_point u0 p1 p2 I P =
           (if perp_distance p1 p2 P = 0 then (None, None, None)
            else (Some (fst (spec_wire_field u0 p1 p2 I P)),
                  Some (fst (snd (spec_wire_field u0 p1 p2 I P))),
                  Some (snd (snd (spec_wire_field u0 p1 p2 I P)))))"
  unfolding bfield_point_def Let_def lmin_eq_foot[OF assms]
  unfolding spec_wire_field_def perp_distance_def Let_def ..

lemma perp_distance_sym: "p1 \<noteq> p2 \<Longrightarrow> perp_distance p2 p1 P = perp_distance p1 p2 P"
  by (simp add: perp_distance_def foot_sym)

lemma cross_vscale_left: "cross (vscale s a) b = vscale s (cross a b)"
  by (cases a; cases b) (simp add: algebra_simps)

lemma unit_swap: "vdivs (vsub p1 p2) (norm3 (vsub p1 p2)) = vscale (- 1) (vdivs (vsub p2 p1) (norm3 (vsub p2 p1)))"
proof -
  have "vdivs (vsub p1 p2) (norm3 (vsub p1 p2)) = vdivs (vscale (- 1) (vsub p2 p1)) (norm3 (vsub p2 p1))"
    using vsub_swap[of p1 p2] norm3_vsub_swap[of p1 p2] by simp
  then show ?thesis by (simp add: vdivs_vscale vscale_vscale)
qed

lemma spec_wire_field_sym:
  assumes "p1 \<noteq> p2"
  shows "spec_wire_field u0 p2 p1 (- I) P = spec_wire_field u0 p1 p2 I P"
proof -
  define e1 where "e1 = vdivs (vsub p2 p1) (norm3 (vsub p2 p1))"
  define F where "F = foot_of_perpendicular p1 p2 P"
  define R where "R = perp_distance p1 p2 P"
  define e3 where "e3 = cross e1 (vdivs (vsub P F) R)"
  define x1 where "x1 = dot (vsub p1 F) e1"
  define x2 where "x2 = dot (vsub p2 F) e1"
  define B0 where "B0 = (u0 * I / (4 * pi * R)) * (x2 / sqrt (x2\<^sup>2 + R\<^sup>2) - x1 / sqrt (x1\<^sup>2 + R\<^sup>2))"
  have lhs: "spec_wire_field u0 p2 p1 (- I) P =
      vscale ((u0 * (- I) / (4 * pi * R)) *
                ((- x1) / sqrt ((- x1)\<^sup>2 + R\<^sup>2) - (- x2) / sqrt ((- x2)\<^sup>2 + R\<^sup>2)))
             (vscale (- 1) e3)"
    unfolding spec_wire_field_def Let_def unit_swap[of p1 p2] foot_sym[OF assms]
      perp_distance_sym[OF assms] cross_vscale_left dot_vscale_right
    by (simp add: e1_def F_def R_def e3_def x1_def x2_def)
  have "(u0 * (- I) / (4 * pi * R)) *
          ((- x1) / sqrt ((- x1)\<^sup>2 + R\<^sup>2) - (- x2) / sqrt ((- x2)\<^sup>2 + R\<^sup>2)) = - B0"
    by (simp add: B0_def algebra_simps)
  then have "spec_wire_field u0 p2 p1 (- I) P = vscale B0 e3"
    unfolding lhs by (simp add: vscale_vscale)
  moreover have "spec_wire_field u0 p1 p2 I P = vscale B0 e3"
    unfolding spec_wire_field_def Let_def
    by (simp add: e1_def F_def R_def e3_def x1_def x2_def B0_def)
  ultimately show ?thesis by simp
qed

lemma bfield_point_sym: "p1 \<noteq> p2 \<Longrightarrow> bfield_point u0 p2 p1 (- I) P = bfield_point u0 p1 p2 I P"
  using bfield_point_eq[of p1 p2 u0 I P] bfield_point_eq[of p2 p1 u0 "- I" P]
  by (simp add: perp_distance_sym spec_wire_field_sym)


lemma in_range_map: "in_range (arr3_map f A) i j k = in_range A i j k"
  by (auto simp add: in_range_def arr3_map_def)

lemma wire_eval:
  assumes "p1 \<noteq> p2" "stack x y z = Inr P"
  shows "bfield_from_thin_straight_wire u0 x y z p1 p2 I plot_wire return_axes =
        (if plot_wire \<and> return_axes then Inr None else Inr (Some (wire_arrays u0 p1 p2 I P)))"
proof -
  have "0 < norm3 (vsub p2 p1)" using assms(1) by (simp add: norm3_pos_iff)
  then show ?thesis
    by (simp add: bfield_from_thin_straight_wire_def bindE_def Let_def assms(2) wire_arrays_def)
qed

lemma wire_arrays_nth:
  assumes "in_range P i j k"
  shows "wire_arrays u0 p1 p2 I P = (Bx, By, Bz) \<Longrightarrow>
     (Bx ! i ! j ! k, By ! i ! j ! k, Bz ! i ! j ! k) = bfield_point u0 p1 p2 I (P ! i ! j ! k)"
proof -
  let ?B = "arr3_map (bfield_point u0 p1 p2 I) P"
  have rB: "in_range ?B i j k" using assms by (simp add: in_range_map)
  assume "wire_arrays u0 p1 p2 I P = (Bx, By, Bz)"
  then have "Bx = arr3_map fst ?B" "By = arr3_map (\<lambda>b. fst (snd b)) ?B" "Bz = arr3_map (\<lambda>b. snd (snd b)) ?B"
    by (simp_all add: wire_arrays_def)
  then show ?thesis
    by (simp add: arr3_map_nth[OF rB] arr3_map_nth[OF assms])
qed

lemma wire_arrays_shape:
  assumes "wire_arrays u0 p1 p2 I P = (Bx, By, Bz)"
  shows "same_shape Bx P \<and> same_shape By P \<and> same_shape Bz P"
proof -
  let ?B = "arr3_map (bfield_point u0 p1 p2 I) P"
  have BP: "same_shape ?B P" by (rule same_shape_map)
  have "same_shape (arr3_map f ?B) P" for f :: "flt \<times> flt \<times> flt \<Rightarrow> flt"
    by (rule same_shape_trans[OF same_shape_map BP])
  then show ?thesis using assms by (auto simp add: wire_arrays_def)
qed



lemma foot_ex: "foot_of_perpendicular (0, 0, - 1) (0, 0, 1) (1, 0, 0) = (0, 0, 0)"
  by (simp add: foot_of_perpendicular_def)

lemma dist_ex: "perp_distance (0, 0, - 1) (0, 0, 1) (1, 0, 0) = 1"
  by (simp add: perp_distance_def foot_ex)

lemma sqrt4: "sqrt 4 = 2"
  using real_sqrt_abs[of 2] by simp

lemma two_div_sqrt2: "2 / sqrt 2 = sqrt 2"
  by (simp add: real_div_sqrt)

lemma field_ex: "spec_wire_field u0 (0, 0, - 1) (0, 0, 1) 10 (1, 0, 0) = (0, u0 * 10 * sqrt 2 / (4 * pi), 0)"
proof -
  have "u0 * 10 / (4 * pi) * (1 / sqrt 2 + 1 / sqrt 2) = u0 * 10 * sqrt 2 / (4 * pi)"
  proof -
    have "1 / sqrt 2 + 1 / sqrt 2 = 2 / sqrt 2" by simp
    then show ?thesis by (simp only: two_div_sqrt2) simp
  qed
  then show ?thesis
    by (simp add: spec_wire_field_def foot_ex dist_ex sqrt4)
qed


lemma arr_add_shape:
  assumes "same_shape A X" "same_shape B X" shows "same_shape (arr_add A B) X"
proof -
  have AB: "same_shape A B" by (rule same_shape_trans[OF assms(1) same_shape_sym[OF assms(2)]])
  have "same_shape (arr3_map2 fadd A B) A" by (rule same_shape_map2[OF AB])
  then show ?thesis unfolding arr_add_def by (rule same_shape_trans[OF _ assms(1)])
qed

lemma arr_add_nth:
  assumes "same_shape A X" "same_shape B X" "in_range X i j k"
  shows "arr_add A B ! i ! j ! k = fadd (A ! i ! j ! k) (B ! i ! j ! k)"
proof -
  have AB: "same_shape A B" by (rule same_shape_trans[OF assms(1) same_shape_sym[OF assms(2)]])
  have rA: "in_range A i j k" using assms(3) same_shape_in_range[OF assms(1), of i j k] by simp
  show ?thesis unfolding arr_add_def by (rule arr3_map2_nth[OF AB rA])
qed

lemma add3_shaped:
  assumes "shaped A X" "shaped B X" shows "shaped (add3 A B) X"
  using assms unfolding shaped_def add3_def fst_conv snd_conv
  by (intro conjI arr_add_shape) simp_all

lemma add3_nth:
  assumes "shaped A X" "shaped B X" "in_range X i j k"
  shows "fst (add3 A B) ! i ! j ! k = fadd (fst A ! i ! j ! k) (fst B ! i ! j ! k)"
    and "fst (snd (add3 A B)) ! i ! j ! k = fadd (fst (snd A) ! i ! j ! k) (fst (snd B) ! i ! j ! k)"
    and "snd (snd (add3 A B)) ! i ! j ! k = fadd (snd (snd A) ! i ! j ! k) (snd (snd B) ! i ! j ! k)"
proof -
  from assms(1) have a: "same_shape (fst A) X" "same_shape (fst (snd A)) X" "same_shape (snd (snd A)) X"
    by (simp_all add: shaped_def)
  from assms(2) have b: "same_shape (fst B) X" "same_shape (fst (snd B)) X" "same_shape (snd (snd B)) X"
    by (simp_all add: shaped_def)
  show "fst (add3 A B) ! i ! j ! k = fadd (fst A ! i ! j ! k) (fst B ! i ! j ! k)"
    unfolding add3_def fst_conv by (rule arr_add_nth[OF a(1) b(1) assms(3)])
  show "fst (snd (add3 A B)) ! i ! j ! k = fadd (fst (snd A) ! i ! j ! k) (fst (snd B) ! i ! j ! k)"
    unfolding add3_def fst_conv snd_conv by (rule arr_add_nth[OF a(2) b(2) assms(3)])
  show "snd (snd (add3 A B)) ! i ! j ! k = fadd (snd (snd A) ! i ! j ! k) (snd (snd B) ! i ! j ! k)"
    unfolding add3_def fst_conv snd_conv by (rule arr_add_nth[OF a(3) b(3) assms(3)])
qed

lemma wire_arrays_shaped:
  assumes PX: "same_shape P X" shows "shaped (wire_arrays u0 p1 p2 I P) X"
proof -
  obtain Bx By Bz where B: "wire_arrays u0 p1 p2 I P = (Bx, By, Bz)"
    by (cases "wire_arrays u0 p1 p2 I P") blast
  from wire_arrays_shape[OF B] have "same_shape Bx P" "same_shape By P" "same_shape Bz P" by simp_all
  then have "same_shape Bx X" "same_shape By X" "same_shape Bz X"
    using PX same_shape_trans by blast+
  then show ?thesis unfolding shaped_def B by simp
qed

lemma unpack3_wire:
  "unpack3 (bfield_from_thin_straight_wire u0 X Y Z p1 p2 I plot_wire False) =
     (if p1 = p2 then Inl (AssertionError ''Line must be specified by 2 distinct points'')
      else bindE (stack X Y Z) (\<lambda>P. Inr (wire_arrays u0 p1 p2 I P)))"
proof (cases "p1 = p2")
  case True
  then show ?thesis
    by (simp add: unpack3_def bfield_from_thin_straight_wire_def norm3_pos_iff bindE_def)
next
  case False
  show ?thesis
  proof (cases "stack X Y Z")
    case (Inl e)
    then show ?thesis using False
      by (simp add: unpack3_def bfield_from_thin_straight_wire_def norm3_pos_iff bindE_def)
  next
    case (Inr P)
    then show ?thesis using False wire_eval[OF False Inr, of u0 I plot_wire False]
      by (simp add: unpack3_def bindE_def)
  qed
qed

lemma bindE_Inr_iff: "(bindE m f = Inr v) = (\<exists>w. m = Inr w \<and> f w = Inr v)"
  by (cases m) (simp_all add: bindE_def)

lemma bindE_Inr: "m = Inr w \<Longrightarrow> bindE m f = f w"
  by (simp add: bindE_def)

lemma bindE_Inl: "m = Inl e \<Longrightarrow> bindE m f = Inl e"
  by (simp add: bindE_def)

lemma stack_Inr_shape: "stack X Y Z = Inr P \<Longrightarrow> same_shape P X"
proof -
  assume P: "stack X Y Z = Inr P"
  then have s: "same_shape X Y" "same_shape X Z" by (simp_all add: stack_def split: if_splits)
  from stack_Inr[OF s] P show ?thesis by auto
qed

lemma unpack3_wire_shaped:
  assumes "unpack3 (bfield_from_thin_straight_wire u0 X Y Z p1 p2 I plot_wire False) = Inr B"
  shows "shaped B X"
proof -
  from assms have ne: "p1 \<noteq> p2" by (auto simp add: unpack3_wire)
  from assms ne have "bindE (stack X Y Z) (\<lambda>P. Inr (wire_arrays u0 p1 p2 I P)) = Inr B"
    by (simp add: unpack3_wire)
  then obtain P where P: "stack X Y Z = Inr P" "B = wire_arrays u0 p1 p2 I P"
    unfolding bindE_Inr_iff by auto
  show ?thesis unfolding P(2) by (rule wire_arrays_shaped[OF stack_Inr_shape[OF P(1)]])
qed

lemma coil_shaped:
  assumes "bfield_from_thin_rectangular_coil u0 X Y Z a b y0 I = Inr B"
  shows "shaped B X"
proof -
  let ?w1 = "unpack3 (bfield_from_thin_straight_wire u0 X Y Z (- a / 2, y0, - b / 2) (a / 2, y0, - b / 2) I False False)"
  let ?w2 = "unpack3 (bfield_from_thin_straight_wire u0 X Y Z (a / 2, y0, - b / 2) (a / 2, y0, b / 2) I False False)"
  let ?w3 = "unpack3 (bfield_from_thin_straight_wire u0 X Y Z (a / 2, y0, b / 2) (- a / 2, y0, b / 2) I False False)"
  let ?w4 = "unpack3 (bfield_from_thin_straight_wire u0 X Y Z (- a / 2, y0, b / 2) (- a / 2, y0, - b / 2) I False False)"
  have eq: "bindE ?w1 (\<lambda>B1. bindE ?w2 (\<lambda>B2. bindE ?w3 (\<lambda>B3. bindE ?w4 (\<lambda>B4.
              Inr (add3 (add3 (add3 B1 B2) B3) B4))))) = Inr B"
    using assms unfolding bfield_from_thin_rectangular_coil_def Let_def .
  from eq obtain B1 where 1: "?w1 = Inr B1"
    and e1: "bindE ?w2 (\<lambda>B2. bindE ?w3 (\<lambda>B3. bindE ?w4 (\<lambda>B4. Inr (add3 (add3 (add3 B1 B2) B3) B4)))) = Inr B"
    unfolding bindE_Inr_iff[of ?w1] by blast
  from e1 obtain B2 where 2: "?w2 = Inr B2"
    and e2: "bindE ?w3 (\<lambda>B3. bindE ?w4 (\<lambda>B4. Inr (add3 (add3 (add3 B1 B2) B3) B4))) = Inr B"
    unfolding bindE_Inr_iff[of ?w2] by blast
  from e2 obtain B3 where 3: "?w3 = Inr B3"
    and e3: "bindE ?w4 (\<lambda>B4. Inr (add3 (add3 (add3 B1 B2) B3) B4)) = Inr B"
    unfolding bindE_Inr_iff[of ?w3] by blast
  from e3 obtain B4 where 4: "?w4 = Inr B4" and B: "B = add3 (add3 (add3 B1 B2) B3) B4"
    unfolding bindE_Inr_iff[of ?w4] by auto
  show ?thesis unfolding B
    by (intro add3_shaped unpack3_wire_shaped[OF 1] unpack3_wire_shaped[OF 2]
        unpack3_wire_shaped[OF 3] unpack3_wire_shaped[OF 4])
qed

lemma coil_Inr:
  assumes "a \<noteq> 0" "b \<noteq> 0" "same_shape X Y" "same_shape X Z"
  shows "\<exists>B. bfield_from_thin_rectangular_coil u0 X Y Z a b y0 I = Inr B"
proof -
  from stack_Inr[OF assms(3,4)] obtain P where P: "stack X Y Z = Inr P" by blast
  have w: "p1 \<noteq> p2 \<Longrightarrow> unpack3 (bfield_from_thin_straight_wire u0 X Y Z p1 p2 I False False)
      = Inr (wire_arrays u0 p1 p2 I P)" for p1 p2
    by (simp add: unpack3_wire P bindE_def)
  have n: "((- a / 2, y0, - b / 2) :: vec3) \<noteq> (a / 2, y0, - b / 2)"
          "((a / 2, y0, - b / 2) :: vec3) \<noteq> (a / 2, y0, b / 2)"
          "((a / 2, y0, b / 2) :: vec3) \<noteq> (- a / 2, y0, b / 2)"
          "((- a / 2, y0, b / 2) :: vec3) \<noteq> (- a / 2, y0, - b / 2)"
    using assms(1,2) by simp_all
  show ?thesis
    unfolding bfield_from_thin_rectangular_coil_def Let_def
    by (simp only: w[OF n(1)] w[OF n(2)] w[OF n(3)] w[OF n(4)] bindE_def sum.case) blast
qed

lemma rectangular_axis_labels:
  assumes "map_of (attrs fm) ''gridGeometry'' = Some (PStr ''rectangular'')"
  shows "axis_labels fm = Inl (KeyError ''rectangular'')"
  using assms by (simp add: axis_labels_def geometry_def attr_def bindE_def axis_labels_from_geometry_def)

lemma rectangular_axis_index:
  assumes "map_of (attrs fm) ''gridGeometry'' = Some (PStr ''rectangular'')"
  shows "axis_index fm key = Inl (KeyError ''rectangular'')"
  by (simp add: axis_index_def rectangular_axis_labels[OF assms] bindE_def)

lemma rectangular_coord_vec:
  assumes "map_of (attrs fm) ''gridGeometry'' = Some (PStr ''rectangular'')"
  shows "coord_vec fm key = Inl (KeyError ''rectangular'')"
  by (simp add: coord_vec_def rectangular_axis_index[OF assms] bindE_def)

lemma rectangular_missing_parameter:
  assumes "a = None \<or> b = None \<or> h = None"
  shows "make_dipole_corrector_fieldmesh u0 component_alias current
           xmin xmax nx ymin ymax ny zmin zmax nz ''rectangular'' a b h R L theta npts plot_wire
         = Inl (ValueError ''Parameters 'a', 'b', and 'h' must be provided for rectangular mode.'')"
  using assms by (auto simp add: make_dipole_corrector_fieldmesh_def split: option.split)

lemma saddle_missing_parameter_with_bounds:
  assumes "R = None \<or> L = None \<or> theta = None"
    and "xmin \<noteq> None" "ymin \<noteq> None" "zmin \<noteq> None" "xmax \<noteq> None" "ymax \<noteq> None" "zmax \<noteq> None"
  shows "make_dipole_corrector_fieldmesh u0 component_alias current
           xmin xmax nx ymin ymax ny zmin zmax nz ''saddle'' a b h R L theta npts plot_wire
         = Inl (ValueError ''Parameters 'R', 'L', and 'theta' must be provided for saddle mode.'')"
  using assms by (auto simp add: make_dipole_corrector_fieldmesh_def dflt_def bindE_def)

lemma linspace_Inr_D:
  assumes "linspace s t n = Inr xs"
  shows "\<exists>a b. s = Some a \<and> t = Some b \<and> 0 \<le> n \<and> length xs = nat n"
proof -
  from assms have n: "\<not> n < 0" by (auto simp add: linspace_def split: if_splits)
  from assms n obtain a b where ab: "s = Some a" "t = Some b"
    by (cases s; cases t) (auto simp add: linspace_def)
  from assms n have "length xs = nat n"
    by (auto simp add: linspace_def ab Let_def split: if_splits)
  with n ab show ?thesis by simp
qed

lemma linspace_nth:
  assumes "2 \<le> n" "i < nat n" "linspace (Some a) (Some b) n = Inr xs"
  shows "xs ! i = a + real i * ((b - a) / (of_int n - 1))"
proof -
  define m where "m = nat n"
  have m: "2 \<le> m" "i < m" using assms(1,2) by (simp_all add: m_def)
  have rm: "real (m - 1) = of_int n - 1" using assms(1) by (simp add: m_def of_nat_diff)
  let ?f = "\<lambda>i. real i * ((b - a) / real (m - 1)) + a"
  have xs: "xs = (map ?f [0..<m])[m - 1 := b]"
    using assms(1,3) m(1) by (simp add: linspace_def Let_def m_def)
  show ?thesis
  proof (cases "i = m - 1")
    case True
    have "xs ! i = b" using m unfolding xs True by simp
    moreover have "a + real (m - 1) * ((b - a) / (of_int n - 1)) = b"
      using rm m(1) by simp
    ultimately show ?thesis using True by simp
  next
    case False
    then have "xs ! i = ?f i" using m unfolding xs by simp
    then show ?thesis using rm by simp
  qed
qed

lemma linspace_ok:
  assumes "0 \<le> n"
  shows "\<exists>xs. linspace (Some a) (Some b) n = Inr xs \<and> length xs = nat n"
  using assms by (simp add: linspace_def Let_def)

lemma diff0_Inr_D:
  assumes "diff0 xs = Inr d"
  shows "2 \<le> length xs \<and> d = xs ! 1 - xs ! 0 \<and> hd xs = xs ! 0"
  using assms by (auto simp add: diff0_def split: list.splits)

lemma diff0_ok: "2 \<le> length xs \<Longrightarrow> diff0 xs = Inr (xs ! 1 - xs ! 0)"
  by (cases xs; cases "tl xs") (auto simp add: diff0_def)

lemma linspace_diff0:
  assumes "linspace (Some a) (Some b) n = Inr xs" "diff0 xs = Inr d"
  shows "2 \<le> n \<and> hd xs = a \<and> d = (b - a) / (of_int n - 1)"
proof -
  from linspace_Inr_D[OF assms(1)] have len: "length xs = nat n" by simp
  from diff0_Inr_D[OF assms(2)] have d: "2 \<le> length xs" "d = xs ! 1 - xs ! 0" "hd xs = xs ! 0" by simp_all
  have n: "2 \<le> n" using d(1) len by simp
  have "xs ! 0 = a" using linspace_nth[OF n _ assms(1), of 0] n by simp
  moreover have "xs ! 1 = a + (b - a) / (of_int n - 1)" using linspace_nth[OF n _ assms(1), of 1] n by simp
  ultimately show ?thesis using n d by simp
qed

lemma meshgrid_same_shape:
  "same_shape (fst (meshgrid xs ys zs)) (fst (snd (meshgrid xs ys zs)))"
  "same_shape (fst (meshgrid xs ys zs)) (snd (snd (meshgrid xs ys zs)))"
  by (simp_all add: meshgrid_def same_shape_def comp_def)

lemma meshgrid_has_shape:
  "has_shape (fst (meshgrid xs ys zs)) (length xs) (length ys) (length zs)"
  by (simp add: meshgrid_def has_shape_def comp_def map_replicate_const)

lemma has_shape_same: "same_shape A B \<Longrightarrow> has_shape B n1 n2 n3 \<Longrightarrow> has_shape A n1 n2 n3"
  by (simp add: same_shape_def has_shape_def)

lemma shape3_via_lengths:
  "shape3 A = (length (map (map length) A),
               (case map (map length) A of [] \<Rightarrow> 0 | r # _ \<Rightarrow> length r),
               (case map (map length) A of [] \<Rightarrow> 0 | r # _ \<Rightarrow> (case r of [] \<Rightarrow> 0 | c # _ \<Rightarrow> c)))"
  by (cases A; cases "hd A") (auto simp add: shape3_def split: list.splits)

lemma has_shape_shape3:
  assumes "has_shape A n1 n2 n3" "0 < n1" "0 < n2"
  shows "shape3 A = (n1, n2, n3)"
proof -
  from assms(2,3) obtain k1 k2 where k: "n1 = Suc k1" "n2 = Suc k2" by (metis Suc_pred)
  show ?thesis 
    using assms(1) unfolding shape3_via_lengths[of A] has_shape_def by (simp add: k)
qed

lemma bind_aliases_ok:
  assumes "\<forall>k \<in> fst ` set comps. map_of component_alias k \<noteq> None"
  shows "\<exists>d'. bind_aliases component_alias comps d = Inr d'"
  using assms
proof (induction comps arbitrary: d)
  case Nil
  then show ?case by simp
next
  case (Cons kc comps)
  obtain k c where kc: "kc = (k, c)" by (cases kc)
  from Cons.prems obtain al where al: "map_of component_alias k = Some al" by (auto simp add: kc)
  from Cons.prems have "\<forall>k \<in> fst ` set comps. map_of component_alias k \<noteq> None" by simp
  from Cons.IH[OF this] show ?case by (simp add: kc al)
qed

lemma FieldMesh_init_Inr_D:
  assumes "FieldMesh_init component_alias ats comps = Inr fm"
  shows "attrs fm = ats \<and> components fm = comps"
  using assms by (auto simp add: FieldMesh_init_def bindE_Inr_iff)

lemma FieldMesh_init_ok:
  assumes "\<forall>k \<in> fst ` set comps. map_of component_alias k \<noteq> None"
  shows "\<exists>fm. FieldMesh_init component_alias ats comps = Inr fm"
proof -
  from bind_aliases_ok[OF assms, of "[]"] obtain d where "bind_aliases component_alias comps [] = Inr d"
    by blast
  then show ?thesis by (simp add: FieldMesh_init_def bindE_def)
qed

lemma assemble_Inr_D:
  assumes "assemble_fieldmesh component_alias xs ys zs B = Inr fm"
  shows "\<exists>dx dy dz. diff0 xs = Inr dx \<and> diff0 ys = Inr dy \<and> diff0 zs = Inr dz \<and>
      attrs fm = mesh_attrs (hd xs) (hd ys) (hd zs) dx dy dz (shape3 (fst B)) \<and>
      components fm = [(''magneticField/x'', fst B), (''magneticField/y'', fst (snd B)),
                       (''magneticField/z'', snd (snd B))]"
proof -
  from assms obtain dx where dx: "diff0 xs = Inr dx" 
    by (cases "diff0 xs") (simp_all add: assemble_fieldmesh_def bindE_def)
  from assms obtain dy where dy: "diff0 ys = Inr dy" 
    by (cases "diff0 ys") (simp_all add: assemble_fieldmesh_def bindE_def dx)
  from assms obtain dz where dz: "diff0 zs = Inr dz" 
    by (cases "diff0 zs") (simp_all add: assemble_fieldmesh_def bindE_def dx dy)
  from assms have "FieldMesh_init component_alias
       (mesh_attrs (hd xs) (hd ys) (hd zs) dx dy dz (shape3 (fst B)))
       [(''magneticField/x'', fst B), (''magneticField/y'', fst (snd B)),
        (''magneticField/z'', snd (snd B))] = Inr fm"
    by (simp add: assemble_fieldmesh_def bindE_def dx dy dz Let_def mesh_attrs_def)
  from FieldMesh_init_Inr_D[OF this] dx dy dz show ?thesis by blast
qed

lemma assemble_ok:
  assumes "2 \<le> length xs" "2 \<le> length ys" "2 \<le> length zs"
    and "map_of component_alias ''magneticField/x'' \<noteq> None"
    and "map_of component_alias ''magneticField/y'' \<noteq> None"
    and "map_of component_alias ''magneticField/z'' \<noteq> None"
  shows "\<exists>fm. assemble_fieldmesh component_alias xs ys zs B = Inr fm"
proof -
  have "\<forall>k \<in> fst ` set [(''magneticField/x'', fst B), (''magneticField/y'', fst (snd B)),
        (''magneticField/z'', snd (snd B))]. map_of component_alias k \<noteq> None"
    using assms(4,5,6) by simp
  from FieldMesh_init_ok[OF this] show ?thesis
    by (simp add: assemble_fieldmesh_def bindE_def diff0_ok[OF assms(1)] diff0_ok[OF assms(2)]
        diff0_ok[OF assms(3)] Let_def)
qed

lemma assemble_geometry:
  assumes "assemble_fieldmesh component_alias xs ys zs B = Inr fm"
  shows "map_of (attrs fm) ''gridGeometry'' = Some (PStr ''rectangular'')"
proof -
  from assemble_Inr_D[OF assms] obtain dx dy dz where
    "attrs fm = mesh_attrs (hd xs) (hd ys) (hd zs) dx dy dz (shape3 (fst B))" by blast
  then show ?thesis by (simp add: mesh_attrs_def)
qed

lemma corrector_shaped:
  assumes "bfield_from_thin_rectangular_corrector u0 X Y Z a b h I = Inr B"
  shows "shaped B X"
proof -
  from assms obtain B1 B2 where
    c: "bfield_from_thin_rectangular_coil u0 X Y Z a b (- h / 2) I = Inr B1"
       "bfield_from_thin_rectangular_coil u0 X Y Z a b (h / 2) I = Inr B2"
    and B: "B = add3 B1 B2"
    unfolding bfield_from_thin_rectangular_corrector_def bindE_Inr_iff by auto
  show ?thesis unfolding B by (intro add3_shaped coil_shaped[OF c(1)] coil_shaped[OF c(2)])
qed

lemma corrector_Inr:
  assumes "a \<noteq> 0" "b \<noteq> 0" "same_shape X Y" "same_shape X Z"
  shows "\<exists>B. bfield_from_thin_rectangular_corrector u0 X Y Z a b h I = Inr B"
proof -
  from coil_Inr[OF assms] obtain B1 where 1: "bfield_from_thin_rectangular_coil u0 X Y Z a b (- h / 2) I = Inr B1"
    by blast
  from coil_Inr[OF assms] obtain B2 where 2: "bfield_from_thin_rectangular_coil u0 X Y Z a b (h / 2) I = Inr B2"
    by blast
  have "bfield_from_thin_rectangular_corrector u0 X Y Z a b h I = Inr (add3 B1 B2)"
    unfolding bfield_from_thin_rectangular_corrector_def 1 2 bindE_def by simp
  then show ?thesis by blast
qed

lemma make_rectangular_Inr_D:
  assumes "make_rectangular_dipole_corrector_fieldmesh u0 component_alias a b h I
             xmin xmax nx ymin ymax ny zmin zmax nz = Inr fm"
  shows "\<exists>xs ys zs a' b' h' B.
      linspace xmin xmax nx = Inr xs \<and> linspace ymin ymax ny = Inr ys \<and> linspace zmin zmax nz = Inr zs \<and>
      a = Some a' \<and> b = Some b' \<and> h = Some h' \<and>
      bfield_from_thin_rectangular_corrector u0 (fst (meshgrid xs ys zs)) (fst (snd (meshgrid xs ys zs)))
         (snd (snd (meshgrid xs ys zs))) a' b' h' I = Inr B \<and>
      assemble_fieldmesh component_alias xs ys zs B = Inr fm"
proof -
  let ?m = "make_rectangular_dipole_corrector_fieldmesh u0 component_alias a b h I
             xmin xmax nx ymin ymax ny zmin zmax nz"
  from assms obtain xs where xs: "linspace xmin xmax nx = Inr xs"
    by (cases "linspace xmin xmax nx") (simp_all add: make_rectangular_dipole_corrector_fieldmesh_def bindE_def)
  from assms obtain ys where ys: "linspace ymin ymax ny = Inr ys"
    by (cases "linspace ymin ymax ny") (simp_all add: make_rectangular_dipole_corrector_fieldmesh_def bindE_def xs)
  from assms obtain zs where zs: "linspace zmin zmax nz = Inr zs"
    by (cases "linspace zmin zmax nz") (simp_all add: make_rectangular_dipole_corrector_fieldmesh_def bindE_def xs ys)
  from assms obtain h' where h: "h = Some h'"
    by (cases h) (simp_all add: make_rectangular_dipole_corrector_fieldmesh_def bindE_def xs ys zs Let_def need_def)
  from assms obtain a' where a: "a = Some a'"
    by (cases a) (simp_all add: make_rectangular_dipole_corrector_fieldmesh_def bindE_def xs ys zs Let_def need_def h)
  from assms obtain b' where b: "b = Some b'"
    by (cases b) (simp_all add: make_rectangular_dipole_corrector_fieldmesh_def bindE_def xs ys zs Let_def need_def h a)
  let ?c = "bfield_from_thin_rectangular_corrector u0 (fst (meshgrid xs ys zs)) (fst (snd (meshgrid xs ys zs)))
         (snd (snd (meshgrid xs ys zs))) a' b' h' I"
  have eq: "?m = bindE ?c (\<lambda>B. assemble_fieldmesh component_alias xs ys zs B)"
    by (simp add: make_rectangular_dipole_corrector_fieldmesh_def bindE_def xs ys zs Let_def need_def h a b)
  from assms obtain B where B: "?c = Inr B" "assemble_fieldmesh component_alias xs ys zs B = Inr fm"
    unfolding eq bindE_Inr_iff by blast
  show ?thesis using xs ys zs h a b B by blast
qed

lemma make_rectangular_ok:
  assumes "a \<noteq> 0" "b \<noteq> 0" "2 \<le> nx" "2 \<le> ny" "2 \<le> nz"
    and "map_of component_alias ''magneticField/x'' \<noteq> None"
    and "map_of component_alias ''magneticField/y'' \<noteq> None"
    and "map_of component_alias ''magneticField/z'' \<noteq> None"
  shows "\<exists>fm. make_rectangular_dipole_corrector_fieldmesh u0 component_alias (Some a) (Some b) (Some h) I
             (Some x0) (Some x1) nx (Some y0) (Some y1) ny (Some z0) (Some z1) nz = Inr fm"
proof -
  from linspace_ok[of nx x0 x1] assms(3) obtain xs where xs: "linspace (Some x0) (Some x1) nx = Inr xs" "length xs = nat nx" by auto
  from linspace_ok[of ny y0 y1] assms(4) obtain ys where ys: "linspace (Some y0) (Some y1) ny = Inr ys" "length ys = nat ny" by auto
  from linspace_ok[of nz z0 z1] assms(5) obtain zs where zs: "linspace (Some z0) (Some z1) nz = Inr zs" "length zs = nat nz" by auto
  from corrector_Inr[OF assms(1,2) meshgrid_same_shape(1)[of xs ys zs] meshgrid_same_shape(2)[of xs ys zs]]
  obtain B where
    B: "bfield_from_thin_rectangular_corrector u0 (fst (meshgrid xs ys zs)) (fst (snd (meshgrid xs ys zs)))
         (snd (snd (meshgrid xs ys zs))) a b h I = Inr B" by blast
  have len: "2 \<le> length xs" "2 \<le> length ys" "2 \<le> length zs"
    using xs(2) ys(2) zs(2) assms(3,4,5) by simp_all
  from assemble_ok[OF len assms(6,7,8), of B] obtain fm where
    "assemble_fieldmesh component_alias xs ys zs B = Inr fm" by blast
  then show ?thesis
    by (simp add: make_rectangular_dipole_corrector_fieldmesh_def bindE_def xs(1) ys(1) zs(1) Let_def need_def B)
qed

lemma make_rectangular_geometry:
  assumes "make_rectangular_dipole_corrector_fieldmesh u0 component_alias a b h I
             xmin xmax nx ymin ymax ny zmin zmax nz = Inr fm"
  shows "map_of (attrs fm) ''gridGeometry'' = Some (PStr ''rectangular'')"
  using make_rectangular_Inr_D[OF assms] assemble_geometry by blast

lemma make_saddle_geometry:
  assumes "make_saddle_dipole_corrector_fieldmesh u0 component_alias R L theta I
             xmin xmax nx ymin ymax ny zmin zmax nz npts plot_wire = Inr fm"
  shows "map_of (attrs fm) ''gridGeometry'' = Some (PStr ''rectangular'')"
  using assms unfolding make_saddle_dipole_corrector_fieldmesh_def Let_def bindE_Inr_iff
  using assemble_geometry by blast

lemma make_wire_geometry:
  assumes "make_thin_straight_wire_fieldmesh u0 component_alias p1 p2 I
             xmin xmax nx ymin ymax ny zmin zmax nz plot_wire = Inr fm"
  shows "map_of (attrs fm) ''gridGeometry'' = Some (PStr ''rectangular'')"
proof -
  from assms have "bindE (linspace xmin xmax nx) (\<lambda>xs.
        bindE (linspace ymin ymax ny) (\<lambda>ys.
        bindE (linspace zmin zmax nz) (\<lambda>zs.
          let G = meshgrid xs ys zs; X = fst G; Y = fst (snd G); Z = snd (snd G)
          in bindE (unpack3 (bfield_from_thin_straight_wire u0 X Y Z p1 p2 I plot_wire False)) (\<lambda>B.
               assemble_fieldmesh component_alias xs ys zs B)))) = Inr fm"
    by (simp add: make_thin_straight_wire_fieldmesh_def split: if_splits)
  then show ?thesis unfolding Let_def bindE_Inr_iff using assemble_geometry by blast
qed

lemma make_dipole_geometry:
  assumes "make_dipole_corrector_fieldmesh u0 component_alias I
       xmin xmax nx ymin ymax ny zmin zmax nz mode a b h R L theta npts plot_wire = Inr fm"
  shows "map_of (attrs fm) ''gridGeometry'' = Some (PStr ''rectangular'')"
proof (cases "mode = ''rectangular''")
  case True
  with assms obtain a' b' h' where abh: "a = Some a'" "b = Some b'" "h = Some h'"
    by (cases a; cases b; cases h) (simp_all add: make_dipole_corrector_fieldmesh_def)
  from assms True obtain xmin' xmax' ymin' ymax' zmin' zmax' where
    "make_rectangular_dipole_corrector_fieldmesh u0 component_alias a b h I
       xmin' xmax' nx ymin' ymax' ny zmin' zmax' nz = Inr fm"
    by (simp add: make_dipole_corrector_fieldmesh_def abh Let_def)
  then show ?thesis by (rule make_rectangular_geometry)
next
  case False
  show ?thesis
  proof (cases "mode = ''saddle''")
    case True
    from assms True have "\<exists>xmin' xmax' ymin' ymax' zmin' zmax'.
       make_saddle_dipole_corrector_fieldmesh u0 component_alias R L theta I
          xmin' xmax' nx ymin' ymax' ny zmin' zmax' nz npts plot_wire = Inr fm"
      unfolding make_dipole_corrector_fieldmesh_def
      by (simp add: bindE_Inr_iff split: if_splits) blast
    then show ?thesis using make_saddle_geometry by blast
  next
    case notsaddle: False
    with False assms show ?thesis by (simp add: make_dipole_corrector_fieldmesh_def)
  qed
qed

lemma arc_point_code:
  "vadd (0, 0, h) (vscale R (matmul (rotate_around_e3 th) (matmul (rotate_around_e3 phi) (1, 0, 0))))
     = arc_point h R (phi + th)"
  by (simp add: matmul_def rotate_around_e3_def Let_def arc_point_def cos_add sin_add algebra_simps)

lemma arc_e1_orthogonal: "dot (matmul (rotate_around_e3 phi) (1, 0, 0)) (0, 0, 1) = 0"
  by (simp add: matmul_def rotate_around_e3_def Let_def)

lemma arc_point_plane: "snd (snd (arc_point h R az)) = h"
  by (simp add: arc_point_def)

lemma arc_point_radius: "norm3 (vsub (arc_point h R az) (0, 0, h)) = \<bar>R\<bar>"
proof -
  have "(R * cos az)\<^sup>2 + (R * sin az)\<^sup>2 = R\<^sup>2 * ((cos az)\<^sup>2 + (sin az)\<^sup>2)"
    by (simp only: power_mult_distrib distrib_left)
  also have "\<dots> = R\<^sup>2" by (simp only: cos_squared_eq) simp
  finally have "(R * cos az)\<^sup>2 + (R * sin az)\<^sup>2 = R\<^sup>2" .
  then show ?thesis by (simp add: arc_point_def)
qed

lemma get_arc_vectors_points:
  assumes "2 \<le> N"
  shows "\<exists>ps. get_arc_vectors h R theta N (0, 0, 1) = Inr ps \<and> length ps = nat N \<and>
     (\<forall>i < nat N. ps ! i = arc_point h R ((pi - theta) / 2 + real i * (theta / (of_int N - 1))))"
proof -
  from linspace_ok[of N 0 theta] assms obtain ths where
    ths: "linspace (Some 0) (Some theta) N = Inr ths" "length ths = nat N" by auto
  let ?ps = "map (\<lambda>th. arc_point h R ((pi - theta) / 2 + th)) ths"
  have g: "get_arc_vectors h R theta N (0, 0, 1) = Inr ?ps"
    unfolding get_arc_vectors_def Let_def arc_e1_orthogonal arc_point_code
    by (simp add: isclose_def ths(1) bindE_def)
  have "?ps ! i = arc_point h R ((pi - theta) / 2 + real i * (theta / (of_int N - 1)))" if "i < nat N" for i
    using linspace_nth[OF assms that ths(1)] that ths(2) by simp
  then show ?thesis using g ths(2) by simp
qed

lemma arc_loop_sum:
  "arc_loop u0 X Y Z I plot_wire ps B =
     sum_fields B (map (\<lambda>i. unpack3 (bfield_from_thin_straight_wire u0 X Y Z (ps ! i) (ps ! Suc i) I plot_wire False))
                      [0..<length ps - 1])"
proof (induction u0 X Y Z I plot_wire ps B rule: arc_loop.induct)
  case (1 u0 X Y Z I plot_wire p1 p2 ps B)
  let ?seg = "\<lambda>qs i. unpack3 (bfield_from_thin_straight_wire u0 X Y Z (qs ! i) (qs ! Suc i) I plot_wire False)"
  have "[0..<length (p1 # p2 # ps) - 1] = 0 # map Suc [0..<length (p2 # ps) - 1]"
    by (simp add: upt_conv_Cons map_Suc_upt del: upt_Suc)
  then have m: "map (?seg (p1 # p2 # ps)) [0..<length (p1 # p2 # ps) - 1]
      = ?seg (p1 # p2 # ps) 0 # map (?seg (p2 # ps)) [0..<length (p2 # ps) - 1]"
    by (simp add: comp_def del: upt_Suc)
  show ?case
    unfolding m using "1.IH" by (simp add: bindE_def split: sum.split)
qed simp_all

lemma sum_fields_Inr:
  "sum_fields B ss = Inr B' \<Longrightarrow> \<exists>Bs. ss = map Inr Bs \<and> B' = foldl add3 B Bs"
proof (induction ss arbitrary: B)
  case Nil
  then show ?case by simp
next
  case (Cons s ss)
  from Cons.prems obtain Bii where s: "s = Inr Bii" and r: "sum_fields (add3 B Bii) ss = Inr B'"
    by (cases s) (simp_all add: bindE_def)
  from Cons.IH[OF r] obtain Bs where Bs: "ss = map Inr Bs" "B' = foldl add3 (add3 B Bii) Bs" by blast
  have "s # ss = map Inr (Bii # Bs) \<and> B' = foldl add3 B (Bii # Bs)" using s Bs by simp
  then show ?case by (rule exI[of _ "Bii # Bs"])
qed

lemma sum_fields_map_Inr: "sum_fields B (map Inr Bs) = Inr (foldl add3 B Bs)"
  by (induction Bs arbitrary: B) (simp_all add: bindE_def)

lemma fadd_case:
  "fadd a b = (case (a, b) of (Some v1, Some v2) \<Rightarrow> Some (v1 + v2) | _ \<Rightarrow> None)"
  by (cases a; cases b) simp_all

lemma foldl_fadd_None: "foldl fadd None xs = None"
  by (induction xs) simp_all

lemma foldl_fadd_Some: "foldl fadd (Some a) (map Some vs) = Some (a + sum_list vs)"
  by (induction vs arbitrary: a) (simp_all add: algebra_simps)

lemma foldl_fadd_has_None: "None \<in> set xs \<Longrightarrow> foldl fadd a xs = None"
proof (induction xs arbitrary: a)
  case Nil
  then show ?case by simp
next
  case (Cons x xs)
  show ?case
  proof (cases x)
    case None
    then have "fadd a x = None" by (cases a) simp_all
    then show ?thesis by (simp add: foldl_fadd_None)
  next
    case (Some v)
    then have "None \<in> set xs" using Cons.prems by auto
    from Cons.IH[OF this] show ?thesis by simp
  qed
qed

lemma norm3_zero_D: "norm3 (vsub P F) = 0 \<Longrightarrow> F = P"
  using norm3_pos_iff[of P F] by auto

lemma on_line_coordinates:
  assumes "perp_distance p1 p2 P = 0"
  shows "(fst (snd p1) = fst (snd p2) \<longrightarrow> fst (snd P) = fst (snd p1)) \<and>
         (snd (snd p1) = snd (snd p2) \<longrightarrow> snd (snd P) = snd (snd p1))"
proof -
  from assms have F: "foot_of_perpendicular p1 p2 P = P"
    unfolding perp_distance_def by (rule norm3_zero_D)
  obtain a1 a2 a3 b1 b2 b3 where p: "p1 = (a1, a2, a3)" "p2 = (b1, b2, b3)"
    by (metis prod_cases3)
  define t where "t = dot (vsub P p1) (vsub p2 p1) / dot (vsub p2 p1) (vsub p2 p1)"
  have "P = vadd p1 (vscale t (vsub p2 p1))"
    using F by (simp add: foot_of_perpendicular_def Let_def t_def)
  then have "P = (a1 + t * (b1 - a1), a2 + t * (b2 - a2), a3 + t * (b3 - a3))"
    by (simp add: p)
  then show ?thesis by (simp add: p)
qed

lemma wire_entry:
  assumes "unpack3 (bfield_from_thin_straight_wire u0 X Y Z p1 p2 I plot_wire False) = Inr B"
    and "in_range X i j k"
  shows "p1 \<noteq> p2"
    and "(fst B ! i ! j ! k, fst (snd B) ! i ! j ! k, snd (snd B) ! i ! j ! k) =
           bfield_point u0 p1 p2 I (X ! i ! j ! k, Y ! i ! j ! k, Z ! i ! j ! k)"
    and "same_shape X Y" and "same_shape X Z"
proof -
  from assms(1) show ne: "p1 \<noteq> p2" by (auto simp add: unpack3_wire)
  from assms(1) ne have "bindE (stack X Y Z) (\<lambda>P. Inr (wire_arrays u0 p1 p2 I P)) = Inr B"
    by (simp add: unpack3_wire)
  then obtain P where P: "stack X Y Z = Inr P" "B = wire_arrays u0 p1 p2 I P"
    unfolding bindE_Inr_iff by auto
  from P(1) show s: "same_shape X Y" "same_shape X Z" by (simp_all add: stack_def split: if_splits)
  from stack_Inr[OF s] P(1) have PX: "same_shape P X"
    and Pn: "P ! i ! j ! k = (X ! i ! j ! k, Y ! i ! j ! k, Z ! i ! j ! k)"
    using assms(2) by auto
  have rP: "in_range P i j k" using assms(2) same_shape_in_range[OF PX, of i j k] by simp
  have "wire_arrays u0 p1 p2 I P = (fst B, fst (snd B), snd (snd B))" using P(2) by simp
  from wire_arrays_nth[OF rP this] Pn
  show "(fst B ! i ! j ! k, fst (snd B) ! i ! j ! k, snd (snd B) ! i ! j ! k) =
           bfield_point u0 p1 p2 I (X ! i ! j ! k, Y ! i ! j ! k, Z ! i ! j ! k)" by simp
qed

lemma wire_finite:
  assumes "unpack3 (bfield_from_thin_straight_wire u0 X Y Z p1 p2 I plot_wire False) = Inr B"
    and "in_range X i j k"
    and "perp_distance p1 p2 (X ! i ! j ! k, Y ! i ! j ! k, Z ! i ! j ! k) \<noteq> 0"
  shows "finite_at B i j k"
proof -
  from wire_entry(1,2)[OF assms(1,2)] assms(3)
  have "(fst B ! i ! j ! k, fst (snd B) ! i ! j ! k, snd (snd B) ! i ! j ! k) =
      (Some (fst (spec_wire_field u0 p1 p2 I (X ! i ! j ! k, Y ! i ! j ! k, Z ! i ! j ! k))),
       Some (fst (snd (spec_wire_field u0 p1 p2 I (X ! i ! j ! k, Y ! i ! j ! k, Z ! i ! j ! k)))),
       Some (snd (snd (spec_wire_field u0 p1 p2 I (X ! i ! j ! k, Y ! i ! j ! k, Z ! i ! j ! k)))))"
    by (simp add: bfield_point_eq)
  then show ?thesis unfolding finite_at_def by simp
qed

lemma add3_finite:
  assumes "shaped A X" "shaped B X" "in_range X i j k" "finite_at A i j k" "finite_at B i j k"
  shows "finite_at (add3 A B) i j k"
  using assms(4,5) unfolding finite_at_def add3_nth[OF assms(1,2,3)] by auto

lemma coil_finite:
  assumes "bfield_from_thin_rectangular_coil u0 X Y Z a b y0 I = Inr B"
    and "in_range X i j k" and "Y ! i ! j ! k \<noteq> y0"
  shows "finite_at B i j k"
proof -
  let ?w1 = "unpack3 (bfield_from_thin_straight_wire u0 X Y Z (- a / 2, y0, - b / 2) (a / 2, y0, - b / 2) I False False)"
  let ?w2 = "unpack3 (bfield_from_thin_straight_wire u0 X Y Z (a / 2, y0, - b / 2) (a / 2, y0, b / 2) I False False)"
  let ?w3 = "unpack3 (bfield_from_thin_straight_wire u0 X Y Z (a / 2, y0, b / 2) (- a / 2, y0, b / 2) I False False)"
  let ?w4 = "unpack3 (bfield_from_thin_straight_wire u0 X Y Z (- a / 2, y0, b / 2) (- a / 2, y0, - b / 2) I False False)"
  have eq: "bindE ?w1 (\<lambda>B1. bindE ?w2 (\<lambda>B2. bindE ?w3 (\<lambda>B3. bindE ?w4 (\<lambda>B4.
              Inr (add3 (add3 (add3 B1 B2) B3) B4))))) = Inr B"
    using assms(1) unfolding bfield_from_thin_rectangular_coil_def Let_def .
  from eq obtain B1 where 1: "?w1 = Inr B1"
    and e1: "bindE ?w2 (\<lambda>B2. bindE ?w3 (\<lambda>B3. bindE ?w4 (\<lambda>B4. Inr (add3 (add3 (add3 B1 B2) B3) B4)))) = Inr B"
    unfolding bindE_Inr_iff[of ?w1] by blast
  from e1 obtain B2 where 2: "?w2 = Inr B2"
    and e2: "bindE ?w3 (\<lambda>B3. bindE ?w4 (\<lambda>B4. Inr (add3 (add3 (add3 B1 B2) B3) B4))) = Inr B"
    unfolding bindE_Inr_iff[of ?w2] by blast
  from e2 obtain B3 where 3: "?w3 = Inr B3"
    and e3: "bindE ?w4 (\<lambda>B4. Inr (add3 (add3 (add3 B1 B2) B3) B4)) = Inr B"
    unfolding bindE_Inr_iff[of ?w3] by blast
  from e3 obtain B4 where 4: "?w4 = Inr B4" and B: "B = add3 (add3 (add3 B1 B2) B3) B4"
    unfolding bindE_Inr_iff[of ?w4] by auto
  have off: "perp_distance (x1, y0, z1) (x2, y0, z2) (X ! i ! j ! k, Y ! i ! j ! k, Z ! i ! j ! k) \<noteq> 0"
    for x1 z1 x2 z2
    using on_line_coordinates[of "(x1, y0, z1)" "(x2, y0, z2)" "(X ! i ! j ! k, Y ! i ! j ! k, Z ! i ! j ! k)"]
      assms(3) by auto
  have f: "finite_at B1 i j k" "finite_at B2 i j k" "finite_at B3 i j k" "finite_at B4 i j k"
    using wire_finite[OF 1 assms(2) off] wire_finite[OF 2 assms(2) off]
      wire_finite[OF 3 assms(2) off] wire_finite[OF 4 assms(2) off] by simp_all
  note s = unpack3_wire_shaped[OF 1] unpack3_wire_shaped[OF 2] unpack3_wire_shaped[OF 3]
    unpack3_wire_shaped[OF 4]
  have s12: "shaped (add3 B1 B2) X" by (rule add3_shaped[OF s(1) s(2)])
  have f12: "finite_at (add3 B1 B2) i j k" by (rule add3_finite[OF s(1) s(2) assms(2) f(1) f(2)])
  have s123: "shaped (add3 (add3 B1 B2) B3) X" by (rule add3_shaped[OF s12 s(3)])
  have f123: "finite_at (add3 (add3 B1 B2) B3) i j k" by (rule add3_finite[OF s12 s(3) assms(2) f12 f(3)])
  show ?thesis unfolding B by (rule add3_finite[OF s123 s(4) assms(2) f123 f(4)])
qed

lemma wire_same_shape:
  assumes "unpack3 (bfield_from_thin_straight_wire u0 X Y Z p1 p2 I plot_wire False) = Inr B"
  shows "same_shape X Y \<and> same_shape X Z"
proof -
  from assms have ne: "p1 \<noteq> p2" by (auto simp add: unpack3_wire)
  from assms ne have "bindE (stack X Y Z) (\<lambda>P. Inr (wire_arrays u0 p1 p2 I P)) = Inr B"
    by (simp add: unpack3_wire)
  then obtain P where P: "stack X Y Z = Inr P" unfolding bindE_Inr_iff by auto
  then show ?thesis by (simp add: stack_def split: if_splits)
qed

lemma zeros_shape: "same_shape (zeros A) A"
  unfolding zeros_def by (rule same_shape_map)

lemma zeros_nth: "in_range A i j k \<Longrightarrow> zeros A ! i ! j ! k = Some 0"
  unfolding zeros_def by (simp add: arr3_map_nth)

lemma zeros_shaped:
  assumes "same_shape X Y" "same_shape X Z"
  shows "shaped (zeros X, zeros Y, zeros Z) X"
proof -
  have "same_shape (zeros Y) X" by (rule same_shape_trans[OF zeros_shape same_shape_sym[OF assms(1)]])
  moreover have "same_shape (zeros Z) X" by (rule same_shape_trans[OF zeros_shape same_shape_sym[OF assms(2)]])
  ultimately show ?thesis using zeros_shape[of X] by (simp add: shaped_def)
qed

lemma foldl_add3_shaped:
  "shaped B0 X \<Longrightarrow> \<forall>S \<in> set Bs. shaped S X \<Longrightarrow> shaped (foldl add3 B0 Bs) X"
proof (induction Bs arbitrary: B0)
  case Nil
  then show ?case by simp
next
  case (Cons S Bs)
  have "shaped (add3 B0 S) X" using Cons.prems by (simp add: add3_shaped)
  moreover have "\<forall>S \<in> set Bs. shaped S X" using Cons.prems(2) by simp
  ultimately show ?case using Cons.IH by simp
qed

lemma foldl_add3_nth:
  assumes "in_range X i j k"
  shows "shaped B0 X \<Longrightarrow> \<forall>S \<in> set Bs. shaped S X \<Longrightarrow>
     fst (foldl add3 B0 Bs) ! i ! j ! k =
       foldl fadd (fst B0 ! i ! j ! k) (map (\<lambda>S. fst S ! i ! j ! k) Bs) \<and>
     fst (snd (foldl add3 B0 Bs)) ! i ! j ! k =
       foldl fadd (fst (snd B0) ! i ! j ! k) (map (\<lambda>S. fst (snd S) ! i ! j ! k) Bs) \<and>
     snd (snd (foldl add3 B0 Bs)) ! i ! j ! k =
       foldl fadd (snd (snd B0) ! i ! j ! k) (map (\<lambda>S. snd (snd S) ! i ! j ! k) Bs)"
proof (induction Bs arbitrary: B0)
  case Nil
  then show ?case by simp
next
  case (Cons S Bs)
  have S: "shaped S X" using Cons.prems(2) by simp
  have sh: "shaped (add3 B0 S) X" using Cons.prems(1) S by (rule add3_shaped)
  have rest: "\<forall>S \<in> set Bs. shaped S X" using Cons.prems(2) by simp
  from Cons.IH[OF sh rest] show ?case
    by (simp add: add3_nth[OF Cons.prems(1) S assms])
qed

lemma sum_fields_first_error:
  assumes "s < length ss" "ss ! s = Inl e" "\<forall>t < s. \<exists>S. ss ! t = Inr S"
  shows "sum_fields B ss = Inl e"
  using assms
proof (induction ss arbitrary: s B)
  case Nil
  then show ?case by simp
next
  case (Cons x ss)
  show ?case
  proof (cases s)
    case 0
    then show ?thesis using Cons.prems(2) by (simp add: bindE_def)
  next
    case (Suc s')
    have "0 < s" using Suc by simp
    have "0 < s \<longrightarrow> (\<exists>S. (x # ss) ! 0 = Inr S)" using Cons.prems(3) by (rule spec)
    then have "\<exists>S. (x # ss) ! 0 = Inr S" using \<open>0 < s\<close> by (rule mp)
    then obtain S where x0: "(x # ss) ! 0 = Inr S" ..
    have x: "x = Inr S" using x0 by simp
    have 1: "s' < length ss" using Cons.prems(1) Suc by simp
    have 2: "ss ! s' = Inl e" using Cons.prems(2) Suc by simp
    have 3: "\<forall>t < s'. \<exists>S. ss ! t = Inr S"
    proof (intro allI impI)
      fix t assume "t < s'"
      then have "Suc t < s" using Suc by simp
      have "Suc t < s \<longrightarrow> (\<exists>S. (x # ss) ! Suc t = Inr S)" using Cons.prems(3) by (rule spec)
      then have "\<exists>S. (x # ss) ! Suc t = Inr S" using \<open>Suc t < s\<close> by (rule mp)
      then obtain S' where "(x # ss) ! Suc t = Inr S'" ..
      then have "ss ! t = Inr S'" by simp
      then show "\<exists>S. ss ! t = Inr S" by (rule exI)
    qed
    from Cons.IH[OF 1 2 3] show ?thesis by (simp add: x bindE_def)
  qed
qed

lemma all_Inr_list:
  "\<forall>x \<in> set xs. \<exists>S. x = Inr S \<Longrightarrow> \<exists>Bs. xs = map Inr Bs"
proof (induction xs)
  case Nil
  then show ?case by simp
next
  case (Cons x xs)
  from Cons.prems have "\<exists>S. x = Inr S" by (rule_tac bspec[of "set (x # xs)"]) simp_all
  then obtain S where S: "x = Inr S" ..
  from Cons.prems have "\<forall>x \<in> set xs. \<exists>S. x = Inr S" by simp
  from Cons.IH[OF this] obtain Bs where Bs: "xs = map Inr Bs" by blast
  have "x # xs = map Inr (S # Bs)" using S Bs by simp
  then show ?case by (rule exI[of _ "S # Bs"])
qed

lemma sum_entry:
  assumes "e = foldl fadd (Some 0) xs"
  shows "(\<forall>vs. xs = map Some vs \<longrightarrow> e = Some (sum_list vs)) \<and> (None \<in> set xs \<longrightarrow> e = None)"
  unfolding assms by (auto simp add: foldl_fadd_Some foldl_fadd_has_None)

lemma list_of_length_2: "length xs = 2 \<Longrightarrow> xs = [xs ! 0, xs ! 1]"
  by (cases xs; cases "tl xs") auto

section \<open>Claims\<close>

text \<open>
  C4. A call of the straight-wire sampler with coincident endpoints fails at the
  assertion, whatever the observation arrays and flags are: nothing is stacked or
  computed, and no arrays (and no \<^verbatim>\<open>None\<close>) are returned. The source's exception is
  an AssertionError with the message "Line must be specified by 2 distinct points".
\<close>

theorem degenerate_segment_fails:
  "bfield_from_thin_straight_wire u0 x y z p p current plot_wire return_axes =
     Inl (AssertionError ''Line must be specified by 2 distinct points'')"
  by (cases p) (simp add: bfield_from_thin_straight_wire_def)

text \<open>
  C1. For a non-degenerate segment, arrays of one shape and an observation point at
  perpendicular distance \<open>R > 0\<close> from the line of the wire, the sampler returns at that
  point the vector \<open>B0 * e3\<close> of the specification: \<open>e1\<close> the unit vector of the
  segment, \<open>e2\<close> the unit vector from the foot of the perpendicular to the point,
  \<open>e3 = e1 \<times> e2\<close>, \<open>x1\<close> and \<open>x2\<close> the projections of \<open>p1\<close> and \<open>p2\<close> on \<open>e1\<close>
  from the foot, \<open>B0 = (u0 I / (4 pi R)) (x2 / sqrt (x2^2 + R^2) - x1 / sqrt (x1^2 + R^2))\<close>.
  Numbers are reals. The instance of the specification (the wire from (0,0,-1) to
  (0,0,1) with 10 A, sampled at (1,0,0)) is the witness: the field is
  \<open>(0, u0 10 sqrt 2 / (4 pi), 0)\<close>.
\<close>

theorem straight_wire_field_formula:
  assumes "p1 \<noteq> p2" and "same_shape x y" and "same_shape x z" and "in_range x i j k"
    and "0 < perp_distance p1 p2 (x ! i ! j ! k, y ! i ! j ! k, z ! i ! j ! k)"
    and "\<not> (plot_wire \<and> return_axes)"
  shows "\<exists>Bx By Bz.
      bfield_from_thin_straight_wire u0 x y z p1 p2 I plot_wire return_axes = Inr (Some (Bx, By, Bz)) \<and>
      same_shape Bx x \<and> same_shape By x \<and> same_shape Bz x \<and>
      (Bx ! i ! j ! k, By ! i ! j ! k, Bz ! i ! j ! k) =
        (case spec_wire_field u0 p1 p2 I (x ! i ! j ! k, y ! i ! j ! k, z ! i ! j ! k) of
           (b1, b2, b3) \<Rightarrow> (Some b1, Some b2, Some b3))"
proof -
  let ?Q = "(x ! i ! j ! k, y ! i ! j ! k, z ! i ! j ! k)"
  from stack_Inr[OF assms(2,3)] obtain P where P: "stack x y z = Inr P" "same_shape P x"
    and Pn: "\<forall>i j k. in_range x i j k \<longrightarrow> P ! i ! j ! k = (x ! i ! j ! k, y ! i ! j ! k, z ! i ! j ! k)"
    by blast
  obtain Bx By Bz where B: "wire_arrays u0 p1 p2 I P = (Bx, By, Bz)"
    by (cases "wire_arrays u0 p1 p2 I P") blast
  have r: "bfield_from_thin_straight_wire u0 x y z p1 p2 I plot_wire return_axes = Inr (Some (Bx, By, Bz))"
    using wire_eval[OF assms(1) P(1), of u0 I plot_wire return_axes] assms(6) B by simp
  have rP: "in_range P i j k" using assms(4) same_shape_in_range[OF P(2)] by simp
  have PQ: "P ! i ! j ! k = ?Q" using Pn assms(4) by blast
  have sh: "same_shape Bx x \<and> same_shape By x \<and> same_shape Bz x"
    using wire_arrays_shape[OF B] P(2) same_shape_trans by blast
  have val: "bfield_point u0 p1 p2 I ?Q =
      (case spec_wire_field u0 p1 p2 I ?Q of (b1, b2, b3) \<Rightarrow> (Some b1, Some b2, Some b3))"
    using assms(5) by (simp add: bfield_point_eq[OF assms(1)] split: prod.split)
  have "(Bx ! i ! j ! k, By ! i ! j ! k, Bz ! i ! j ! k) = bfield_point u0 p1 p2 I ?Q"
    using wire_arrays_nth[OF rP B] PQ by simp
  with val r sh show ?thesis by metis
qed

theorem straight_wire_field_formula_witness:
  "\<forall>u0. \<exists>Bx By Bz.
     bfield_from_thin_straight_wire u0 [[[1]]] [[[0]]] [[[0]]] (0, 0, - 1) (0, 0, 1) 10 False False
       = Inr (Some (Bx, By, Bz)) \<and>
     Bx ! 0 ! 0 ! 0 = Some 0 \<and> By ! 0 ! 0 ! 0 = Some (u0 * 10 * sqrt 2 / (4 * pi)) \<and> Bz ! 0 ! 0 ! 0 = Some 0 \<and>
     norm3 (0, u0 * 10 * sqrt 2 / (4 * pi), 0) = \<bar>u0\<bar> * 10 * sqrt 2 / (4 * pi)"
proof
  fix u0 :: real
  have h1: "((0, 0, - 1) :: vec3) \<noteq> (0, 0, 1)" by simp
  have h2: "same_shape [[[1::real]]] [[[0::real]]]" by (simp add: same_shape_def)
  have h4: "in_range [[[1::real]]] 0 0 0" by (simp add: in_range_def)
  have h5: "0 < perp_distance (0, 0, - 1) (0, 0, 1) ([[[1]]] ! 0 ! 0 ! 0, [[[0]]] ! 0 ! 0 ! 0, [[[0]]] ! 0 ! 0 ! 0)"
    by (simp add: dist_ex)
  have h6: "\<not> (False \<and> False)" by simp
  have n: "norm3 (0, u0 * 10 * sqrt 2 / (4 * pi), 0) = \<bar>u0\<bar> * 10 * sqrt 2 / (4 * pi)"
    by (simp add: abs_mult)
  from straight_wire_field_formula[OF h1 h2 h2 h4 h5 h6, of u0 10]
  show "\<exists>Bx By Bz.
     bfield_from_thin_straight_wire u0 [[[1]]] [[[0]]] [[[0]]] (0, 0, - 1) (0, 0, 1) 10 False False
       = Inr (Some (Bx, By, Bz)) \<and>
     Bx ! 0 ! 0 ! 0 = Some 0 \<and> By ! 0 ! 0 ! 0 = Some (u0 * 10 * sqrt 2 / (4 * pi)) \<and> Bz ! 0 ! 0 ! 0 = Some 0 \<and>
     norm3 (0, u0 * 10 * sqrt 2 / (4 * pi), 0) = \<bar>u0\<bar> * 10 * sqrt 2 / (4 * pi)"
    using n by (simp add: field_ex) blast
qed

text \<open>
  C3. Swapping the endpoints and negating the current leaves the result of the
  straight-wire sampler unchanged, for all observation arrays and flags (for coincident
  endpoints both calls fail at the assertion).
\<close>

theorem wire_reversal_symmetry:
  "bfield_from_thin_straight_wire u0 x y z p2 p1 (- I) plot_wire return_axes =
   bfield_from_thin_straight_wire u0 x y z p1 p2 I plot_wire return_axes"
proof (cases "p1 = p2")
  case True
  then show ?thesis by (simp add: bfield_from_thin_straight_wire_def norm3_pos_iff)
next
  case False
  then have "bfield_point u0 p2 p1 (- I) = bfield_point u0 p1 p2 I"
    by (intro ext) (rule bfield_point_sym)
  then show ?thesis
    by (simp add: bfield_from_thin_straight_wire_def norm3_vsub_swap[of p1 p2])
qed

text \<open>
  C9. For a non-degenerate segment, with both \<^verbatim>\<open>plot_wire\<close> and \<^verbatim>\<open>return_axes\<close> set
  the sampler never returns field arrays, and for observation arrays of one shape (the
  contract of the sampler; otherwise \<^verbatim>\<open>np.stack\<close> raises) it returns \<^verbatim>\<open>None\<close>. When the
  two flags are not both set it never returns \<^verbatim>\<open>None\<close>, and returns the arrays for
  observation arrays of one shape.
\<close>

theorem both_flags_return_None:
  assumes "p1 \<noteq> p2"
  shows "(plot_wire \<and> return_axes \<longrightarrow>
            (\<forall>B. bfield_from_thin_straight_wire u0 x y z p1 p2 I plot_wire return_axes \<noteq> Inr (Some B)) \<and>
            (same_shape x y \<and> same_shape x z \<longrightarrow>
               bfield_from_thin_straight_wire u0 x y z p1 p2 I plot_wire return_axes = Inr None)) \<and>
         (\<not> (plot_wire \<and> return_axes) \<longrightarrow>
            bfield_from_thin_straight_wire u0 x y z p1 p2 I plot_wire return_axes \<noteq> Inr None \<and>
            (same_shape x y \<and> same_shape x z \<longrightarrow>
               (\<exists>B. bfield_from_thin_straight_wire u0 x y z p1 p2 I plot_wire return_axes = Inr (Some B))))"
proof (cases "same_shape x y \<and> same_shape x z")
  case True
  then obtain P where P: "stack x y z = Inr P" by (auto simp add: stack_def)
  let ?r = "bfield_from_thin_straight_wire u0 x y z p1 p2 I plot_wire return_axes"
  show ?thesis
  proof (cases "plot_wire \<and> return_axes")
    case flags: True
    then have "?r = Inr None" using wire_eval[OF assms P, of u0 I plot_wire return_axes] by simp
    then show ?thesis using flags by simp
  next
    case flags: False
    then have "?r = Inr (Some (wire_arrays u0 p1 p2 I P))"
      using wire_eval[OF assms P, of u0 I plot_wire return_axes] by simp
    then have eq: "?r = Inr (Some (wire_arrays u0 p1 p2 I P))" .
    have "?r \<noteq> Inr None" using eq by simp
    moreover have "\<exists>B. ?r = Inr (Some B)" using eq by blast
    ultimately show ?thesis using flags by blast
  qed
next
  case False
  then have "stack x y z = Inl (ValueError ''all input arrays must have the same shape'')"
    by (auto simp add: stack_def)
  then have "bfield_from_thin_straight_wire u0 x y z p1 p2 I plot_wire return_axes =
      Inl (ValueError ''all input arrays must have the same shape'')"
    using assms by (simp add: bfield_from_thin_straight_wire_def norm3_pos_iff bindE_def)
  then have "\<forall>B. bfield_from_thin_straight_wire u0 x y z p1 p2 I plot_wire return_axes \<noteq> Inr (Some B)"
    and "bfield_from_thin_straight_wire u0 x y z p1 p2 I plot_wire return_axes \<noteq> Inr None"
    by simp_all
  then show ?thesis using False by blast
qed

theorem both_flags_return_None_witness:
  "bfield_from_thin_straight_wire 1 [[[1]]] [[[0]]] [[[0]]] (0, 0, - 1) (0, 0, 1) 10 True True = Inr None \<and>
   (\<exists>B. bfield_from_thin_straight_wire 1 [[[1]]] [[[0]]] [[[0]]] (0, 0, - 1) (0, 0, 1) 10 True False = Inr (Some B))"
proof -
  have h1: "((0, 0, - 1) :: vec3) \<noteq> (0, 0, 1)" by simp
  have h2: "same_shape [[[1::real]]] [[[0::real]]]" by (simp add: same_shape_def)
  show ?thesis
    using both_flags_return_None[OF h1, of True True 1 "[[[1]]]" "[[[0]]]" "[[[0]]]" 10]
          both_flags_return_None[OF h1, of True False 1 "[[[1]]]" "[[[0]]]" "[[[0]]]" 10] h2
    by simp
qed

text \<open>
  C8. Indexing a mesh with a key that is not a stored component name, not an alias that
  resolves to a stored component, and neither \<^verbatim>\<open>'E'\<close> nor \<^verbatim>\<open>'B'\<close>, raises the error
  "Key not available: <key>" (a ValueError in the source); it returns no array, no
  \<^verbatim>\<open>None\<close> and no default. The witness is the key \<^verbatim>\<open>'Bq'\<close> on a magnetic mesh.
\<close>

theorem getitem_unknown_key:
  assumes "map_of (components fm) key = None"
    and "\<forall>c. map_of component_from_alias key = Some c \<longrightarrow> map_of (components fm) c = None"
    and "key \<noteq> ''E''" and "key \<noteq> ''B''"
  shows "getitem component_from_alias fm key = Inl (ValueError (''Key not available: '' @ key))"
proof -
  have "getitem_stored component_from_alias fm key = None"
    using assms(1,2) by (simp add: getitem_stored_def split: option.split)
  then show ?thesis using assms(3,4) by (simp add: getitem_def)
qed

theorem getitem_unknown_key_witness:
  "getitem [(''Bx'', ''magneticField/x''), (''By'', ''magneticField/y''), (''Bz'', ''magneticField/z'')]
     \<lparr>attrs = [(''gridGeometry'', PStr ''rectangular'')],
      components = [(''magneticField/x'', [[[Some 0]]]), (''magneticField/y'', [[[Some 0]]]),
                    (''magneticField/z'', [[[Some 1]]])],
      alias_dict = [(''Bx'', [[[Some 0]]]), (''By'', [[[Some 0]]]), (''Bz'', [[[Some 1]]])]\<rparr>
     ''Bq'' = Inl (ValueError ''Key not available: Bq'')"
  using getitem_unknown_key[of
     "\<lparr>attrs = [(''gridGeometry'', PStr ''rectangular'')],
      components = [(''magneticField/x'', [[[Some 0]]]), (''magneticField/y'', [[[Some 0]]]),
                    (''magneticField/z'', [[[Some 1]]])],
      alias_dict = [(''Bx'', [[[Some 0]]]), (''By'', [[[Some 0]]]), (''Bz'', [[[Some 1]]])]\<rparr>"
     "''Bq''"
     "[(''Bx'', ''magneticField/x''), (''By'', ''magneticField/y''), (''Bz'', ''magneticField/z'')]"]
  by simp

text \<open>
  C5. The claim asks for a configuration error that names the missing fields whenever a
  required shape parameter is missing. In rectangular mode the check comes first and the
  ValueError names \<^verbatim>\<open>'a'\<close>, \<^verbatim>\<open>'b'\<close> and \<^verbatim>\<open>'h'\<close> (lemma \<open>rectangular_missing_parameter\<close>).
  In saddle mode the defaults of the bounds are computed before the check: a saddle call
  that omits \<^verbatim>\<open>R\<close> and \<^verbatim>\<open>xmin\<close> evaluates \<^verbatim>\<open>-R\<close> on \<^verbatim>\<open>None\<close> and ends in a TypeError, whatever
  the other arguments are; the ValueError of the check is reached only when the bounds
  that need the missing parameter were supplied (lemma
  \<open>saddle_missing_parameter_with_bounds\<close>).
\<close>

theorem saddle_missing_radius_is_TypeError:
  "make_dipole_corrector_fieldmesh u0 component_alias current
     None xmax nx ymin ymax ny zmin zmax nz ''saddle'' a b h None L theta npts plot_wire
   = Inl TypeError"
  by (simp add: make_dipole_corrector_fieldmesh_def dflt_def need_def bindE_def)



text \<open>
  C6. A successful call of the rectangular-dipole mesh builder has all six bounds given
  and at least two samples per axis, and the mesh it returns has exactly the attributes
  gridOriginOffset = (xmin, ymin, zmin), gridSpacing = ((xmax-xmin)/(nx-1),
  (ymax-ymin)/(ny-1), (zmax-zmin)/(nz-1)), gridSize = (nx, ny, nz), eleAnchorPt = 'center',
  gridGeometry = 'rectangular', axisLabels = ('x','y','z'), gridLowerBound = (0,0,0),
  harmonic = 0 and fundamentalFrequency = 0, and exactly the components magneticField/x,
  magneticField/y and magneticField/z, each an array of shape (nx, ny, nz). Numbers are
  reals.
\<close>

theorem rectangular_mesh_attributes:
  assumes "make_rectangular_dipole_corrector_fieldmesh u0 component_alias a b h I
             xmin xmax nx ymin ymax ny zmin zmax nz = Inr fm"
  shows "\<exists>x0 x1 y0 y1 z0 z1 Bx By Bz.
      xmin = Some x0 \<and> xmax = Some x1 \<and> ymin = Some y0 \<and> ymax = Some y1 \<and>
      zmin = Some z0 \<and> zmax = Some z1 \<and> 2 \<le> nx \<and> 2 \<le> ny \<and> 2 \<le> nz \<and>
      attrs fm =
        [(''gridOriginOffset'', PTuple [PFloat x0, PFloat y0, PFloat z0]),
         (''gridSpacing'', PTuple [PFloat ((x1 - x0) / (of_int nx - 1)),
                                   PFloat ((y1 - y0) / (of_int ny - 1)),
                                   PFloat ((z1 - z0) / (of_int nz - 1))]),
         (''gridSize'', PTuple [PInt nx, PInt ny, PInt nz]),
         (''eleAnchorPt'', PStr ''center''),
         (''gridGeometry'', PStr ''rectangular''),
         (''axisLabels'', PTuple [PStr ''x'', PStr ''y'', PStr ''z'']),
         (''gridLowerBound'', PTuple [PInt 0, PInt 0, PInt 0]),
         (''harmonic'', PInt 0),
         (''fundamentalFrequency'', PInt 0)] \<and>
      components fm = [(''magneticField/x'', Bx), (''magneticField/y'', By), (''magneticField/z'', Bz)] \<and>
      has_shape Bx (nat nx) (nat ny) (nat nz) \<and> has_shape By (nat nx) (nat ny) (nat nz) \<and>
      has_shape Bz (nat nx) (nat ny) (nat nz)"
proof -
  from make_rectangular_Inr_D[OF assms] obtain xs ys zs a' b' h' B where
    l: "linspace xmin xmax nx = Inr xs" "linspace ymin ymax ny = Inr ys" "linspace zmin zmax nz = Inr zs"
    and c: "bfield_from_thin_rectangular_corrector u0 (fst (meshgrid xs ys zs)) (fst (snd (meshgrid xs ys zs)))
         (snd (snd (meshgrid xs ys zs))) a' b' h' I = Inr B"
    and m: "assemble_fieldmesh component_alias xs ys zs B = Inr fm"
    by blast
  from linspace_Inr_D[OF l(1)] obtain x0 x1 where x: "xmin = Some x0" "xmax = Some x1" "length xs = nat nx" by blast
  from linspace_Inr_D[OF l(2)] obtain y0 y1 where y: "ymin = Some y0" "ymax = Some y1" "length ys = nat ny" by blast
  from linspace_Inr_D[OF l(3)] obtain z0 z1 where z: "zmin = Some z0" "zmax = Some z1" "length zs = nat nz" by blast
  from assemble_Inr_D[OF m] obtain dx dy dz where
    d: "diff0 xs = Inr dx" "diff0 ys = Inr dy" "diff0 zs = Inr dz"
    and at: "attrs fm = mesh_attrs (hd xs) (hd ys) (hd zs) dx dy dz (shape3 (fst B))"
    and co: "components fm = [(''magneticField/x'', fst B), (''magneticField/y'', fst (snd B)),
                       (''magneticField/z'', snd (snd B))]"
    by blast
  from linspace_diff0[OF l(1)[unfolded x] d(1)] have fx: "2 \<le> nx" "hd xs = x0" "dx = (x1 - x0) / (of_int nx - 1)" by simp_all
  from linspace_diff0[OF l(2)[unfolded y] d(2)] have fy: "2 \<le> ny" "hd ys = y0" "dy = (y1 - y0) / (of_int ny - 1)" by simp_all
  from linspace_diff0[OF l(3)[unfolded z] d(3)] have fz: "2 \<le> nz" "hd zs = z0" "dz = (z1 - z0) / (of_int nz - 1)" by simp_all
  have X: "has_shape (fst (meshgrid xs ys zs)) (nat nx) (nat ny) (nat nz)"
    using meshgrid_has_shape[of xs ys zs] by (simp add: x y z)
  from corrector_shaped[OF c] have s: "same_shape (fst B) (fst (meshgrid xs ys zs))"
    "same_shape (fst (snd B)) (fst (meshgrid xs ys zs))" "same_shape (snd (snd B)) (fst (meshgrid xs ys zs))"
    by (simp_all add: shaped_def)
  have hs: "has_shape (fst B) (nat nx) (nat ny) (nat nz)" "has_shape (fst (snd B)) (nat nx) (nat ny) (nat nz)"
    "has_shape (snd (snd B)) (nat nx) (nat ny) (nat nz)"
    using has_shape_same[OF s(1) X] has_shape_same[OF s(2) X] has_shape_same[OF s(3) X] by simp_all
  have sh: "shape3 (fst B) = (nat nx, nat ny, nat nz)"
    using has_shape_shape3[OF hs(1)] fx(1) fy(1) by simp
  have at': "attrs fm =
        [(''gridOriginOffset'', PTuple [PFloat x0, PFloat y0, PFloat z0]),
         (''gridSpacing'', PTuple [PFloat ((x1 - x0) / (of_int nx - 1)),
                                   PFloat ((y1 - y0) / (of_int ny - 1)),
                                   PFloat ((z1 - z0) / (of_int nz - 1))]),
         (''gridSize'', PTuple [PInt nx, PInt ny, PInt nz]),
         (''eleAnchorPt'', PStr ''center''),
         (''gridGeometry'', PStr ''rectangular''),
         (''axisLabels'', PTuple [PStr ''x'', PStr ''y'', PStr ''z'']),
         (''gridLowerBound'', PTuple [PInt 0, PInt 0, PInt 0]),
         (''harmonic'', PInt 0),
         (''fundamentalFrequency'', PInt 0)]"
    unfolding at mesh_attrs_def sh using fx fy fz by simp
  show ?thesis using x(1,2) y(1,2) z(1,2) fx(1) fy(1) fz(1) at' co hs by blast
qed

theorem rectangular_mesh_attributes_witness:
  "\<exists>fm. make_rectangular_dipole_corrector_fieldmesh 1
           [(''magneticField/x'', ''Bx''), (''magneticField/y'', ''By''), (''magneticField/z'', ''Bz'')]
           (Some (1 / 2)) (Some 1) (Some (1 / 5)) 10
           (Some (- 1)) (Some 1) 3 (Some (- 1)) (Some 1) 5 (Some (- 2)) (Some 2) 9 = Inr fm \<and>
         attrs fm =
           [(''gridOriginOffset'', PTuple [PFloat (- 1), PFloat (- 1), PFloat (- 2)]),
            (''gridSpacing'', PTuple [PFloat 1, PFloat (1 / 2), PFloat (1 / 2)]),
            (''gridSize'', PTuple [PInt 3, PInt 5, PInt 9]),
            (''eleAnchorPt'', PStr ''center''),
            (''gridGeometry'', PStr ''rectangular''),
            (''axisLabels'', PTuple [PStr ''x'', PStr ''y'', PStr ''z'']),
            (''gridLowerBound'', PTuple [PInt 0, PInt 0, PInt 0]),
            (''harmonic'', PInt 0),
            (''fundamentalFrequency'', PInt 0)] \<and>
         map fst (components fm) = [''magneticField/x'', ''magneticField/y'', ''magneticField/z''] \<and>
         list_all (\<lambda>c. has_shape (snd c) 3 5 9) (components fm)"
proof -
  let ?ca = "[(''magneticField/x'', ''Bx''), (''magneticField/y'', ''By''), (''magneticField/z'', ''Bz'')]"
  have "\<exists>fm. make_rectangular_dipole_corrector_fieldmesh 1 ?ca
           (Some (1 / 2)) (Some 1) (Some (1 / 5)) 10
           (Some (- 1)) (Some 1) 3 (Some (- 1)) (Some 1) 5 (Some (- 2)) (Some 2) 9 = Inr fm"
    by (rule make_rectangular_ok) simp_all
  then obtain fm where fm: "make_rectangular_dipole_corrector_fieldmesh 1 ?ca
           (Some (1 / 2)) (Some 1) (Some (1 / 5)) 10
           (Some (- 1)) (Some 1) 3 (Some (- 1)) (Some 1) 5 (Some (- 2)) (Some 2) 9 = Inr fm" by blast
  from rectangular_mesh_attributes[OF fm] obtain Bx By Bz where
    "attrs fm =
        [(''gridOriginOffset'', PTuple [PFloat (- 1), PFloat (- 1), PFloat (- 2)]),
         (''gridSpacing'', PTuple [PFloat ((1 - (- 1)) / (of_int 3 - 1)),
                                   PFloat ((1 - (- 1)) / (of_int 5 - 1)),
                                   PFloat ((2 - (- 2)) / (of_int 9 - 1))]),
         (''gridSize'', PTuple [PInt 3, PInt 5, PInt 9]),
         (''eleAnchorPt'', PStr ''center''),
         (''gridGeometry'', PStr ''rectangular''),
         (''axisLabels'', PTuple [PStr ''x'', PStr ''y'', PStr ''z'']),
         (''gridLowerBound'', PTuple [PInt 0, PInt 0, PInt 0]),
         (''harmonic'', PInt 0),
         (''fundamentalFrequency'', PInt 0)]"
    and "components fm = [(''magneticField/x'', Bx), (''magneticField/y'', By), (''magneticField/z'', Bz)]"
    and "has_shape Bx (nat 3) (nat 5) (nat 9)" "has_shape By (nat 3) (nat 5) (nat 9)"
        "has_shape Bz (nat 3) (nat 5) (nat 9)"
    by auto
  then show ?thesis using fm by (intro exI[of _ fm]) simp
qed

text \<open>
  C10. On a mesh whose gridGeometry attribute is 'rectangular' the accessors
  \<^verbatim>\<open>axis_labels\<close>, \<^verbatim>\<open>axis_index\<close> and \<^verbatim>\<open>coord_vec\<close> raise KeyError('rectangular'): the
  labels are looked up in a table with the keys 'cartesian' and 'cylindrical' only, and
  the stored axisLabels attribute plays no part (the hypothesis constrains gridGeometry
  alone). Every mesh returned by a builder of the corrector module is such a mesh.
\<close>

theorem rectangular_geometry_breaks_axis_accessors:
  assumes "map_of (attrs fm) ''gridGeometry'' = Some (PStr ''rectangular'') \<or>
     make_rectangular_dipole_corrector_fieldmesh u0 component_alias a b h I
        xmin xmax nx ymin ymax ny zmin zmax nz = Inr fm \<or>
     make_saddle_dipole_corrector_fieldmesh u0 component_alias R L theta I
        xmin xmax nx ymin ymax ny zmin zmax nz npts plot_wire = Inr fm \<or>
     make_thin_straight_wire_fieldmesh u0 component_alias p1 p2 I
        xmin xmax nx ymin ymax ny zmin zmax nz plot_wire = Inr fm \<or>
     make_dipole_corrector_fieldmesh u0 component_alias I
        xmin xmax nx ymin ymax ny zmin zmax nz mode a b h R L theta npts plot_wire = Inr fm"
  shows "axis_labels fm = Inl (KeyError ''rectangular'') \<and>
         axis_index fm key = Inl (KeyError ''rectangular'') \<and>
         coord_vec fm key = Inl (KeyError ''rectangular'')"
proof -
  from assms have g: "map_of (attrs fm) ''gridGeometry'' = Some (PStr ''rectangular'')"
    by (elim disjE) (assumption, erule make_rectangular_geometry, erule make_saddle_geometry,
        erule make_wire_geometry, erule make_dipole_geometry)
  show ?thesis
    using rectangular_axis_labels[OF g] rectangular_axis_index[OF g] rectangular_coord_vec[OF g]
    by simp
qed

theorem rectangular_geometry_breaks_axis_accessors_witness:
  "\<exists>fm. make_dipole_corrector_fieldmesh 1
           [(''magneticField/x'', ''Bx''), (''magneticField/y'', ''By''), (''magneticField/z'', ''Bz'')]
           10 (Some (- 1)) (Some 1) 3 (Some (- 1)) (Some 1) 3 (Some (- 1)) (Some 1) 3
           ''rectangular'' (Some (1 / 2)) (Some (1 / 2)) (Some (1 / 2)) None None None None False = Inr fm \<and>
         axis_labels fm = Inl (KeyError ''rectangular'') \<and>
         axis_index fm ''z'' = Inl (KeyError ''rectangular'') \<and>
         coord_vec fm ''z'' = Inl (KeyError ''rectangular'')"
proof -
  let ?ca = "[(''magneticField/x'', ''Bx''), (''magneticField/y'', ''By''), (''magneticField/z'', ''Bz'')]"
  have "\<exists>fm. make_rectangular_dipole_corrector_fieldmesh 1 ?ca
           (Some (1 / 2)) (Some (1 / 2)) (Some (1 / 2)) 10
           (Some (- 1)) (Some 1) 3 (Some (- 1)) (Some 1) 3 (Some (- 1)) (Some 1) 3 = Inr fm"
    by (rule make_rectangular_ok) simp_all
  then obtain fm where "make_rectangular_dipole_corrector_fieldmesh 1 ?ca
           (Some (1 / 2)) (Some (1 / 2)) (Some (1 / 2)) 10
           (Some (- 1)) (Some 1) 3 (Some (- 1)) (Some 1) 3 (Some (- 1)) (Some 1) 3 = Inr fm" by blast
  then have fm: "make_dipole_corrector_fieldmesh 1 ?ca
           10 (Some (- 1)) (Some 1) 3 (Some (- 1)) (Some 1) 3 (Some (- 1)) (Some 1) 3
           ''rectangular'' (Some (1 / 2)) (Some (1 / 2)) (Some (1 / 2)) None None None None False = Inr fm"
    by (simp add: make_dipole_corrector_fieldmesh_def)
  from rectangular_geometry_breaks_axis_accessors[of fm 1 ?ca, OF disjI2, OF disjI2, OF disjI2, OF disjI2, OF fm, of "''z''"]
  show ?thesis using fm by blast
qed



text \<open>
  C2. The field of the rectangular corrector is the elementwise sum of the fields of its
  two coils at \<open>y0 = -h/2\<close> and \<open>y0 = +h/2\<close>, with the same current on the same grid:
  when both coils return fields, the corrector returns arrays of the shape of the grid,
  and at every index and in every component its entry is \<open>v1 + v2\<close> for the coils'
  entries \<open>v1\<close> and \<open>v2\<close> (a NaN when one of them is a NaN); when a coil fails (a
  degenerate side, arrays of different shapes), the corrector fails with the same error.
\<close>

theorem corrector_is_sum_of_coils:
  "(\<forall>B1 B2. bfield_from_thin_rectangular_coil u0 X Y Z a b (- h / 2) I = Inr B1 \<and>
            bfield_from_thin_rectangular_coil u0 X Y Z a b (h / 2) I = Inr B2 \<longrightarrow>
      (\<exists>B. bfield_from_thin_rectangular_corrector u0 X Y Z a b h I = Inr B \<and> shaped B X \<and>
           (\<forall>i j k. in_range X i j k \<longrightarrow>
              fst B ! i ! j ! k =
                (case (fst B1 ! i ! j ! k, fst B2 ! i ! j ! k) of
                   (Some v1, Some v2) \<Rightarrow> Some (v1 + v2) | _ \<Rightarrow> None) \<and>
              fst (snd B) ! i ! j ! k =
                (case (fst (snd B1) ! i ! j ! k, fst (snd B2) ! i ! j ! k) of
                   (Some v1, Some v2) \<Rightarrow> Some (v1 + v2) | _ \<Rightarrow> None) \<and>
              snd (snd B) ! i ! j ! k =
                (case (snd (snd B1) ! i ! j ! k, snd (snd B2) ! i ! j ! k) of
                   (Some v1, Some v2) \<Rightarrow> Some (v1 + v2) | _ \<Rightarrow> None)))) \<and>
   (\<forall>e. bfield_from_thin_rectangular_coil u0 X Y Z a b (- h / 2) I = Inl e \<longrightarrow>
        bfield_from_thin_rectangular_corrector u0 X Y Z a b h I = Inl e) \<and>
   (\<forall>B1 e. bfield_from_thin_rectangular_coil u0 X Y Z a b (- h / 2) I = Inr B1 \<and>
           bfield_from_thin_rectangular_coil u0 X Y Z a b (h / 2) I = Inl e \<longrightarrow>
        bfield_from_thin_rectangular_corrector u0 X Y Z a b h I = Inl e)"
proof (intro conjI allI impI)
  fix B1 B2
  assume c: "bfield_from_thin_rectangular_coil u0 X Y Z a b (- h / 2) I = Inr B1 \<and>
             bfield_from_thin_rectangular_coil u0 X Y Z a b (h / 2) I = Inr B2"
  then have s: "shaped B1 X" "shaped B2 X" using coil_shaped by blast+
  have r: "bfield_from_thin_rectangular_corrector u0 X Y Z a b h I = Inr (add3 B1 B2)"
    using c by (simp add: bfield_from_thin_rectangular_corrector_def bindE_def)
  have n: "\<forall>i j k. in_range X i j k \<longrightarrow>
              fst (add3 B1 B2) ! i ! j ! k =
                (case (fst B1 ! i ! j ! k, fst B2 ! i ! j ! k) of
                   (Some v1, Some v2) \<Rightarrow> Some (v1 + v2) | _ \<Rightarrow> None) \<and>
              fst (snd (add3 B1 B2)) ! i ! j ! k =
                (case (fst (snd B1) ! i ! j ! k, fst (snd B2) ! i ! j ! k) of
                   (Some v1, Some v2) \<Rightarrow> Some (v1 + v2) | _ \<Rightarrow> None) \<and>
              snd (snd (add3 B1 B2)) ! i ! j ! k =
                (case (snd (snd B1) ! i ! j ! k, snd (snd B2) ! i ! j ! k) of
                   (Some v1, Some v2) \<Rightarrow> Some (v1 + v2) | _ \<Rightarrow> None)"
    using add3_nth[OF s] by (simp only: fadd_case) blast
  show "\<exists>B. bfield_from_thin_rectangular_corrector u0 X Y Z a b h I = Inr B \<and> shaped B X \<and>
           (\<forall>i j k. in_range X i j k \<longrightarrow>
              fst B ! i ! j ! k =
                (case (fst B1 ! i ! j ! k, fst B2 ! i ! j ! k) of
                   (Some v1, Some v2) \<Rightarrow> Some (v1 + v2) | _ \<Rightarrow> None) \<and>
              fst (snd B) ! i ! j ! k =
                (case (fst (snd B1) ! i ! j ! k, fst (snd B2) ! i ! j ! k) of
                   (Some v1, Some v2) \<Rightarrow> Some (v1 + v2) | _ \<Rightarrow> None) \<and>
              snd (snd B) ! i ! j ! k =
                (case (snd (snd B1) ! i ! j ! k, snd (snd B2) ! i ! j ! k) of
                   (Some v1, Some v2) \<Rightarrow> Some (v1 + v2) | _ \<Rightarrow> None))"
    by (rule exI[of _ "add3 B1 B2"]) (use r add3_shaped[OF s] n in blast)
next
  fix e assume "bfield_from_thin_rectangular_coil u0 X Y Z a b (- h / 2) I = Inl e"
  then show "bfield_from_thin_rectangular_corrector u0 X Y Z a b h I = Inl e"
    by (simp add: bfield_from_thin_rectangular_corrector_def bindE_def)
next
  fix B1 e assume "bfield_from_thin_rectangular_coil u0 X Y Z a b (- h / 2) I = Inr B1 \<and>
           bfield_from_thin_rectangular_coil u0 X Y Z a b (h / 2) I = Inl e"
  then show "bfield_from_thin_rectangular_corrector u0 X Y Z a b h I = Inl e"
    by (simp add: bfield_from_thin_rectangular_corrector_def bindE_def)
qed

theorem corrector_is_sum_of_coils_witness:
  "\<exists>B1 B2 B.
     bfield_from_thin_rectangular_coil 1 [[[0]]] [[[0]]] [[[0]]] 2 2 (- 2 / 2) 1 = Inr B1 \<and>
     bfield_from_thin_rectangular_coil 1 [[[0]]] [[[0]]] [[[0]]] 2 2 (2 / 2) 1 = Inr B2 \<and>
     bfield_from_thin_rectangular_corrector 1 [[[0]]] [[[0]]] [[[0]]] 2 2 2 1 = Inr B \<and>
     (\<exists>x1 x2. fst B1 ! 0 ! 0 ! 0 = Some x1 \<and> fst B2 ! 0 ! 0 ! 0 = Some x2 \<and>
              fst B ! 0 ! 0 ! 0 = Some (x1 + x2)) \<and>
     (\<exists>y1 y2. fst (snd B1) ! 0 ! 0 ! 0 = Some y1 \<and> fst (snd B2) ! 0 ! 0 ! 0 = Some y2 \<and>
              fst (snd B) ! 0 ! 0 ! 0 = Some (y1 + y2)) \<and>
     (\<exists>z1 z2. snd (snd B1) ! 0 ! 0 ! 0 = Some z1 \<and> snd (snd B2) ! 0 ! 0 ! 0 = Some z2 \<and>
              snd (snd B) ! 0 ! 0 ! 0 = Some (z1 + z2))"
proof -
  have sh: "same_shape [[[0::real]]] [[[0::real]]]" by (simp add: same_shape_def)
  have r: "in_range [[[0::real]]] 0 0 0" by (simp add: in_range_def)
  obtain B1 where B1: "bfield_from_thin_rectangular_coil 1 [[[0]]] [[[0]]] [[[0]]] 2 2 (- 2 / 2) 1 = Inr B1"
    using coil_Inr[of 2 2 "[[[0]]]" "[[[0]]]" "[[[0]]]" 1 "- 2 / 2" 1] sh by auto
  obtain B2 where B2: "bfield_from_thin_rectangular_coil 1 [[[0]]] [[[0]]] [[[0]]] 2 2 (2 / 2) 1 = Inr B2"
    using coil_Inr[of 2 2 "[[[0]]]" "[[[0]]]" "[[[0]]]" 1 "2 / 2" 1] sh by auto
  have "finite_at B1 0 0 0" by (rule coil_finite[OF B1 r]) simp
  then obtain x1 y1 z1 where v1: "fst B1 ! 0 ! 0 ! 0 = Some x1" "fst (snd B1) ! 0 ! 0 ! 0 = Some y1"
    "snd (snd B1) ! 0 ! 0 ! 0 = Some z1" unfolding finite_at_def by blast
  have "finite_at B2 0 0 0" by (rule coil_finite[OF B2 r]) simp
  then obtain x2 y2 z2 where v2: "fst B2 ! 0 ! 0 ! 0 = Some x2" "fst (snd B2) ! 0 ! 0 ! 0 = Some y2"
    "snd (snd B2) ! 0 ! 0 ! 0 = Some z2" unfolding finite_at_def by blast
  from corrector_is_sum_of_coils[of 1 "[[[0]]]" "[[[0]]]" "[[[0]]]" 2 2 2 1] B1 B2 r
  obtain B where B: "bfield_from_thin_rectangular_corrector 1 [[[0]]] [[[0]]] [[[0]]] 2 2 2 1 = Inr B"
    and e: "fst B ! 0 ! 0 ! 0 =
                (case (fst B1 ! 0 ! 0 ! 0, fst B2 ! 0 ! 0 ! 0) of
                   (Some v1, Some v2) \<Rightarrow> Some (v1 + v2) | _ \<Rightarrow> None)"
           "fst (snd B) ! 0 ! 0 ! 0 =
                (case (fst (snd B1) ! 0 ! 0 ! 0, fst (snd B2) ! 0 ! 0 ! 0) of
                   (Some v1, Some v2) \<Rightarrow> Some (v1 + v2) | _ \<Rightarrow> None)"
           "snd (snd B) ! 0 ! 0 ! 0 =
                (case (snd (snd B1) ! 0 ! 0 ! 0, snd (snd B2) ! 0 ! 0 ! 0) of
                   (Some v1, Some v2) \<Rightarrow> Some (v1 + v2) | _ \<Rightarrow> None)"
    by blast
  show ?thesis
    apply (rule exI[of _ B1], rule exI[of _ B2], rule exI[of _ B])
    using B1 B2 B e v1 v2 by simp
qed

text \<open>
  C7. For a discretization count \<open>N \<ge> 2\<close> the arc decomposer (with the normal (0,0,1))
  returns exactly \<open>N\<close> points; point \<open>i\<close> is \<open>(R cos az, R sin az, h)\<close> with azimuth
  \<open>az = phi + i theta / (N - 1)\<close> and \<open>phi = (pi - theta) / 2\<close>, so it lies in the plane
  \<open>z = h\<close> at distance \<open>|R|\<close> from \<open>(0, 0, h)\<close>, the first azimuth is \<open>phi\<close> and the last
  \<open>phi + theta\<close>. The arc field is the sum of the fields of the \<open>N - 1\<close> straight
  segments between consecutive points: when it is returned, every segment returned its
  field, the arc field has the shape of the grid, and at every index and in every
  component its entry is the sum \<open>v1 + ... + v(N-1)\<close> of the segments' entries (a NaN when
  one of them is a NaN); it is returned when every segment returns, and the first
  segment that fails (coincident points, as for \<open>R = 0\<close> or \<open>theta = 0\<close>) makes the arc
  field fail with that segment's error.
\<close>

theorem arc_points_and_field:
  assumes "2 \<le> N"
  shows "\<exists>ps. get_arc_vectors h R theta N (0, 0, 1) = Inr ps \<and> length ps = nat N \<and>
     (\<forall>i < nat N.
        ps ! i = arc_point h R ((pi - theta) / 2 + real i * (theta / (of_int N - 1))) \<and>
        snd (snd (ps ! i)) = h \<and> norm3 (vsub (ps ! i) (0, 0, h)) = \<bar>R\<bar>) \<and>
     ps ! 0 = arc_point h R ((pi - theta) / 2) \<and>
     ps ! (nat N - 1) = arc_point h R ((pi - theta) / 2 + theta) \<and>
     bfield_from_thin_wire_arc u0 X Y Z h R theta N I plot_wire =
       sum_fields (zeros X, zeros Y, zeros Z)
         (map (\<lambda>i. unpack3 (bfield_from_thin_straight_wire u0 X Y Z (ps ! i) (ps ! Suc i) I plot_wire False))
              [0..<nat N - 1]) \<and>
     (\<forall>B. bfield_from_thin_wire_arc u0 X Y Z h R theta N I plot_wire = Inr B \<longrightarrow>
        (\<exists>Bs. length Bs = nat N - 1 \<and>
           (\<forall>i < nat N - 1. unpack3 (bfield_from_thin_straight_wire u0 X Y Z (ps ! i) (ps ! Suc i) I
                                 plot_wire False) = Inr (Bs ! i)) \<and>
           B = foldl add3 (zeros X, zeros Y, zeros Z) Bs \<and>
           shaped B X \<and>
           (\<forall>i j k. in_range X i j k \<longrightarrow>
              (\<forall>vs. map (\<lambda>S. fst S ! i ! j ! k) Bs = map Some vs \<longrightarrow>
                    fst B ! i ! j ! k = Some (sum_list vs)) \<and>
              (None \<in> set (map (\<lambda>S. fst S ! i ! j ! k) Bs) \<longrightarrow> fst B ! i ! j ! k = None) \<and>
              (\<forall>vs. map (\<lambda>S. fst (snd S) ! i ! j ! k) Bs = map Some vs \<longrightarrow>
                    fst (snd B) ! i ! j ! k = Some (sum_list vs)) \<and>
              (None \<in> set (map (\<lambda>S. fst (snd S) ! i ! j ! k) Bs) \<longrightarrow> fst (snd B) ! i ! j ! k = None) \<and>
              (\<forall>vs. map (\<lambda>S. snd (snd S) ! i ! j ! k) Bs = map Some vs \<longrightarrow>
                    snd (snd B) ! i ! j ! k = Some (sum_list vs)) \<and>
              (None \<in> set (map (\<lambda>S. snd (snd S) ! i ! j ! k) Bs) \<longrightarrow> snd (snd B) ! i ! j ! k = None)))) \<and>
     ((\<forall>s < nat N - 1. \<exists>S. unpack3 (bfield_from_thin_straight_wire u0 X Y Z (ps ! s) (ps ! Suc s) I
                                 plot_wire False) = Inr S) \<longrightarrow>
        (\<exists>B. bfield_from_thin_wire_arc u0 X Y Z h R theta N I plot_wire = Inr B)) \<and>
     (\<forall>s e. s < nat N - 1 \<and>
            unpack3 (bfield_from_thin_straight_wire u0 X Y Z (ps ! s) (ps ! Suc s) I plot_wire False) = Inl e \<and>
            (\<forall>t < s. \<exists>S. unpack3 (bfield_from_thin_straight_wire u0 X Y Z (ps ! t) (ps ! Suc t) I
                                 plot_wire False) = Inr S) \<longrightarrow>
        bfield_from_thin_wire_arc u0 X Y Z h R theta N I plot_wire = Inl e)"
proof -
  from get_arc_vectors_points[OF assms, of h R theta] obtain ps where
    g: "get_arc_vectors h R theta N (0, 0, 1) = Inr ps" and len: "length ps = nat N"
    and pt: "\<forall>i < nat N. ps ! i = arc_point h R ((pi - theta) / 2 + real i * (theta / (of_int N - 1)))"
    by blast
  let ?seg = "\<lambda>i. unpack3 (bfield_from_thin_straight_wire u0 X Y Z (ps ! i) (ps ! Suc i) I plot_wire False)"
  let ?Z = "(zeros X, zeros Y, zeros Z)"
  let ?arc = "bfield_from_thin_wire_arc u0 X Y Z h R theta N I plot_wire"
  have all: "\<forall>i < nat N.
        ps ! i = arc_point h R ((pi - theta) / 2 + real i * (theta / (of_int N - 1))) \<and>
        snd (snd (ps ! i)) = h \<and> norm3 (vsub (ps ! i) (0, 0, h)) = \<bar>R\<bar>"
    using pt by (simp add: arc_point_plane arc_point_radius)
  have first: "ps ! 0 = arc_point h R ((pi - theta) / 2)" using pt assms by simp
  have "real (nat N - 1) * (theta / (of_int N - 1)) = theta"
    using assms by (simp add: of_nat_diff)
  then have last: "ps ! (nat N - 1) = arc_point h R ((pi - theta) / 2 + theta)"
    using pt assms by simp
  have f: "?arc = sum_fields ?Z (map ?seg [0..<nat N - 1])"
    by (simp add: bfield_from_thin_wire_arc_def g bindE_def arc_loop_sum len)
  have pos: "0 < nat N - 1" using assms by simp
  have s: "\<exists>Bs. length Bs = nat N - 1 \<and> (\<forall>i < nat N - 1. ?seg i = Inr (Bs ! i)) \<and>
           B = foldl add3 ?Z Bs \<and> shaped B X \<and>
           (\<forall>i j k. in_range X i j k \<longrightarrow>
              (\<forall>vs. map (\<lambda>S. fst S ! i ! j ! k) Bs = map Some vs \<longrightarrow>
                    fst B ! i ! j ! k = Some (sum_list vs)) \<and>
              (None \<in> set (map (\<lambda>S. fst S ! i ! j ! k) Bs) \<longrightarrow> fst B ! i ! j ! k = None) \<and>
              (\<forall>vs. map (\<lambda>S. fst (snd S) ! i ! j ! k) Bs = map Some vs \<longrightarrow>
                    fst (snd B) ! i ! j ! k = Some (sum_list vs)) \<and>
              (None \<in> set (map (\<lambda>S. fst (snd S) ! i ! j ! k) Bs) \<longrightarrow> fst (snd B) ! i ! j ! k = None) \<and>
              (\<forall>vs. map (\<lambda>S. snd (snd S) ! i ! j ! k) Bs = map Some vs \<longrightarrow>
                    snd (snd B) ! i ! j ! k = Some (sum_list vs)) \<and>
              (None \<in> set (map (\<lambda>S. snd (snd S) ! i ! j ! k) Bs) \<longrightarrow> snd (snd B) ! i ! j ! k = None))"
    if B: "?arc = Inr B" for B
  proof -
    from B f have "sum_fields ?Z (map ?seg [0..<nat N - 1]) = Inr B" by simp
    from sum_fields_Inr[OF this] obtain Bs where
      Bs: "map ?seg [0..<nat N - 1] = map Inr Bs" "B = foldl add3 ?Z Bs" by blast
    have "length (map ?seg [0..<nat N - 1]) = length (map Inr Bs :: (error + field3) list)"
      using Bs(1) by (rule arg_cong)
    then have l: "length Bs = nat N - 1" by simp
    have segs: "?seg i = Inr (Bs ! i)" if "i < nat N - 1" for i
    proof -
      have "map ?seg [0..<nat N - 1] ! i = map Inr Bs ! i" using Bs(1) by simp
      then show ?thesis using that l by simp
    qed
    then have segs': "\<forall>i < nat N - 1. ?seg i = Inr (Bs ! i)" by blast
    have shS: "\<forall>S \<in> set Bs. shaped S X"
    proof
      fix S assume "S \<in> set Bs"
      then obtain i where i: "i < length Bs" "Bs ! i = S" by (auto simp add: in_set_conv_nth)
      have "?seg i = Inr S" using segs[of i] i l by simp
      then show "shaped S X" by (rule unpack3_wire_shaped)
    qed
    have "?seg 0 = Inr (Bs ! 0)" using segs[OF pos] .
    from wire_same_shape[OF this] have shZ: "shaped ?Z X" by (simp add: zeros_shaped)
    have shB: "shaped B X" unfolding Bs(2) by (rule foldl_add3_shaped[OF shZ shS])
    have ent: "(\<forall>vs. map (\<lambda>S. fst S ! i ! j ! k) Bs = map Some vs \<longrightarrow>
                    fst B ! i ! j ! k = Some (sum_list vs)) \<and>
              (None \<in> set (map (\<lambda>S. fst S ! i ! j ! k) Bs) \<longrightarrow> fst B ! i ! j ! k = None) \<and>
              (\<forall>vs. map (\<lambda>S. fst (snd S) ! i ! j ! k) Bs = map Some vs \<longrightarrow>
                    fst (snd B) ! i ! j ! k = Some (sum_list vs)) \<and>
              (None \<in> set (map (\<lambda>S. fst (snd S) ! i ! j ! k) Bs) \<longrightarrow> fst (snd B) ! i ! j ! k = None) \<and>
              (\<forall>vs. map (\<lambda>S. snd (snd S) ! i ! j ! k) Bs = map Some vs \<longrightarrow>
                    snd (snd B) ! i ! j ! k = Some (sum_list vs)) \<and>
              (None \<in> set (map (\<lambda>S. snd (snd S) ! i ! j ! k) Bs) \<longrightarrow> snd (snd B) ! i ! j ! k = None)"
      if r: "in_range X i j k" for i j k
    proof -
      from wire_same_shape[OF \<open>?seg 0 = Inr (Bs ! 0)\<close>] have xy: "same_shape X Y" "same_shape X Z" by simp_all
      have rY: "in_range Y i j k" using r same_shape_in_range[OF xy(1), of i j k] by simp
      have rZ: "in_range Z i j k" using r same_shape_in_range[OF xy(2), of i j k] by simp
      from foldl_add3_nth[OF r shZ shS]
      have e: "fst B ! i ! j ! k = foldl fadd (Some 0) (map (\<lambda>S. fst S ! i ! j ! k) Bs)"
        "fst (snd B) ! i ! j ! k = foldl fadd (Some 0) (map (\<lambda>S. fst (snd S) ! i ! j ! k) Bs)"
        "snd (snd B) ! i ! j ! k = foldl fadd (Some 0) (map (\<lambda>S. snd (snd S) ! i ! j ! k) Bs)"
        unfolding Bs(2) by (simp_all add: zeros_nth[OF r] zeros_nth[OF rY] zeros_nth[OF rZ])
      show ?thesis using sum_entry[OF e(1)] sum_entry[OF e(2)] sum_entry[OF e(3)] by simp
    qed
    show ?thesis
      apply (rule exI[of _ Bs])
      apply (intro conjI)
          apply (rule l)
         apply (rule segs')
        apply (rule Bs(2))
       apply (rule shB)
      apply (intro allI impI)
      apply (erule ent)
      done
  qed
  then have s': "\<forall>B. ?arc = Inr B \<longrightarrow>
        (\<exists>Bs. length Bs = nat N - 1 \<and> (\<forall>i < nat N - 1. ?seg i = Inr (Bs ! i)) \<and>
           B = foldl add3 ?Z Bs \<and> shaped B X \<and>
           (\<forall>i j k. in_range X i j k \<longrightarrow>
              (\<forall>vs. map (\<lambda>S. fst S ! i ! j ! k) Bs = map Some vs \<longrightarrow>
                    fst B ! i ! j ! k = Some (sum_list vs)) \<and>
              (None \<in> set (map (\<lambda>S. fst S ! i ! j ! k) Bs) \<longrightarrow> fst B ! i ! j ! k = None) \<and>
              (\<forall>vs. map (\<lambda>S. fst (snd S) ! i ! j ! k) Bs = map Some vs \<longrightarrow>
                    fst (snd B) ! i ! j ! k = Some (sum_list vs)) \<and>
              (None \<in> set (map (\<lambda>S. fst (snd S) ! i ! j ! k) Bs) \<longrightarrow> fst (snd B) ! i ! j ! k = None) \<and>
              (\<forall>vs. map (\<lambda>S. snd (snd S) ! i ! j ! k) Bs = map Some vs \<longrightarrow>
                    snd (snd B) ! i ! j ! k = Some (sum_list vs)) \<and>
              (None \<in> set (map (\<lambda>S. snd (snd S) ! i ! j ! k) Bs) \<longrightarrow> snd (snd B) ! i ! j ! k = None)))"
    by (intro allI impI)
  have ok: "(\<forall>s < nat N - 1. \<exists>S. ?seg s = Inr S) \<longrightarrow> (\<exists>B. ?arc = Inr B)"
  proof
    assume a: "\<forall>s < nat N - 1. \<exists>S. ?seg s = Inr S"
    have "\<forall>x \<in> set (map ?seg [0..<nat N - 1]). \<exists>S. x = Inr S"
    proof
      fix x assume "x \<in> set (map ?seg [0..<nat N - 1])"
      then obtain s where s: "s < nat N - 1" "x = ?seg s" by auto
      from a s(1) have "\<exists>S. ?seg s = Inr S" by (rule_tac mp[OF spec[of _ s]])
      then show "\<exists>S. x = Inr S" unfolding s(2) .
    qed
    from all_Inr_list[OF this] obtain Bs where "map ?seg [0..<nat N - 1] = map Inr Bs" ..
    then have "?arc = Inr (foldl add3 ?Z Bs)" unfolding f by (simp only: sum_fields_map_Inr)
    then show "\<exists>B. ?arc = Inr B" by (rule exI)
  qed
  have err: "\<forall>s e. s < nat N - 1 \<and> ?seg s = Inl e \<and> (\<forall>t < s. \<exists>S. ?seg t = Inr S) \<longrightarrow> ?arc = Inl e"
  proof (intro allI impI)
    fix s e assume a: "s < nat N - 1 \<and> ?seg s = Inl e \<and> (\<forall>t < s. \<exists>S. ?seg t = Inr S)"
    then have 1: "s < length (map ?seg [0..<nat N - 1])" by simp
    have 2: "map ?seg [0..<nat N - 1] ! s = Inl e" using a by simp
    have 3: "\<forall>t < s. \<exists>S. map ?seg [0..<nat N - 1] ! t = Inr S"
    proof (intro allI impI)
      fix t assume t: "t < s"
      from a have "t < s \<longrightarrow> (\<exists>S. ?seg t = Inr S)" by (rule_tac spec[of _ t]) simp
      then have "\<exists>S. ?seg t = Inr S" using t by (rule mp)
      moreover have "map ?seg [0..<nat N - 1] ! t = ?seg t" using t a by simp
      ultimately show "\<exists>S. map ?seg [0..<nat N - 1] ! t = Inr S" by simp
    qed
    show "?arc = Inl e" unfolding f by (rule sum_fields_first_error[OF 1 2 3])
  qed
  show ?thesis
    apply (rule exI[of _ ps])
    apply (intro conjI)
            apply (rule g)
           apply (rule len)
          apply (rule all)
         apply (rule first)
        apply (rule last)
       apply (rule f)
      apply (rule s')
     apply (rule ok)
    apply (rule err)
    done
qed

theorem arc_points_and_field_witness:
  "\<exists>ps S0 S1 B. get_arc_vectors 1 2 pi 3 (0, 0, 1) = Inr ps \<and> length ps = 3 \<and>
     ps ! 0 = (2, 0, 1) \<and> ps ! 1 = (0, 2, 1) \<and> ps ! 2 = (- 2, 0, 1) \<and>
     unpack3 (bfield_from_thin_straight_wire 1 [[[0]]] [[[0]]] [[[0]]] (ps ! 0) (ps ! 1) 1 False False) = Inr S0 \<and>
     unpack3 (bfield_from_thin_straight_wire 1 [[[0]]] [[[0]]] [[[0]]] (ps ! 1) (ps ! 2) 1 False False) = Inr S1 \<and>
     bfield_from_thin_wire_arc 1 [[[0]]] [[[0]]] [[[0]]] 1 2 pi 3 1 False = Inr B \<and>
     (\<exists>a0 a1. fst S0 ! 0 ! 0 ! 0 = Some a0 \<and> fst S1 ! 0 ! 0 ! 0 = Some a1 \<and>
              fst B ! 0 ! 0 ! 0 = Some (a0 + a1)) \<and>
     (\<exists>b0 b1. fst (snd S0) ! 0 ! 0 ! 0 = Some b0 \<and> fst (snd S1) ! 0 ! 0 ! 0 = Some b1 \<and>
              fst (snd B) ! 0 ! 0 ! 0 = Some (b0 + b1)) \<and>
     (\<exists>c0 c1. snd (snd S0) ! 0 ! 0 ! 0 = Some c0 \<and> snd (snd S1) ! 0 ! 0 ! 0 = Some c1 \<and>
              snd (snd B) ! 0 ! 0 ! 0 = Some (c0 + c1))"
proof -
  let ?G = "[[[0::real]]]"
  let ?seg = "\<lambda>ps i. unpack3 (bfield_from_thin_straight_wire 1 ?G ?G ?G (ps ! i) (ps ! Suc i) 1 False False)"
  let ?arc = "bfield_from_thin_wire_arc 1 ?G ?G ?G 1 2 pi 3 1 False"
  have n: "(2::int) \<le> 3" by simp
  have two: "nat 3 - 1 = 2" by simp
  from arc_points_and_field[OF n, of 1 2 pi 1 ?G ?G ?G 1 False]
  obtain ps where g: "get_arc_vectors 1 2 pi 3 (0, 0, 1) = Inr ps" and len: "length ps = nat 3"
    and pt: "\<forall>i < nat 3. ps ! i = arc_point 1 2 ((pi - pi) / 2 + real i * (pi / (of_int 3 - 1))) \<and>
        snd (snd (ps ! i)) = 1 \<and> norm3 (vsub (ps ! i) (0, 0, 1)) = \<bar>2\<bar>"
    and sB: "\<forall>B. ?arc = Inr B \<longrightarrow>
        (\<exists>Bs. length Bs = nat 3 - 1 \<and> (\<forall>i < nat 3 - 1. ?seg ps i = Inr (Bs ! i)) \<and>
           B = foldl add3 (zeros ?G, zeros ?G, zeros ?G) Bs \<and> shaped B ?G \<and>
           (\<forall>i j k. in_range ?G i j k \<longrightarrow>
              (\<forall>vs. map (\<lambda>S. fst S ! i ! j ! k) Bs = map Some vs \<longrightarrow>
                    fst B ! i ! j ! k = Some (sum_list vs)) \<and>
              (None \<in> set (map (\<lambda>S. fst S ! i ! j ! k) Bs) \<longrightarrow> fst B ! i ! j ! k = None) \<and>
              (\<forall>vs. map (\<lambda>S. fst (snd S) ! i ! j ! k) Bs = map Some vs \<longrightarrow>
                    fst (snd B) ! i ! j ! k = Some (sum_list vs)) \<and>
              (None \<in> set (map (\<lambda>S. fst (snd S) ! i ! j ! k) Bs) \<longrightarrow> fst (snd B) ! i ! j ! k = None) \<and>
              (\<forall>vs. map (\<lambda>S. snd (snd S) ! i ! j ! k) Bs = map Some vs \<longrightarrow>
                    snd (snd B) ! i ! j ! k = Some (sum_list vs)) \<and>
              (None \<in> set (map (\<lambda>S. snd (snd S) ! i ! j ! k) Bs) \<longrightarrow> snd (snd B) ! i ! j ! k = None)))"
    and ok: "(\<forall>s < nat 3 - 1. \<exists>S. ?seg ps s = Inr S) \<longrightarrow> (\<exists>B. ?arc = Inr B)"
    by blast
  have p0: "ps ! 0 = (2, 0, 1)" using pt by (simp add: arc_point_def)
  have "ps ! 1 = arc_point 1 2 ((pi - pi) / 2 + real 1 * (pi / (of_int 3 - 1)))" using pt by simp
  then have p1: "ps ! 1 = (0, 2, 1)" by (simp add: arc_point_def)
  have "ps ! 2 = arc_point 1 2 ((pi - pi) / 2 + real 2 * (pi / (of_int 3 - 1)))" using pt by simp
  then have p2: "ps ! 2 = (- 2, 0, 1)" by (simp add: arc_point_def)
  have p1': "ps ! Suc 0 = (0, 2, 1)" using p1 by simp
  have p2': "ps ! Suc (Suc 0) = (- 2, 0, 1)" using p2 by (simp add: numeral_2_eq_2)
  have sh: "same_shape ?G ?G" by (simp add: same_shape_def)
  have r: "in_range ?G 0 0 0" by (simp add: in_range_def)
  from stack_Inr[OF sh sh] obtain P where P: "stack ?G ?G ?G = Inr P" by blast
  have s0: "?seg ps 0 = Inr (wire_arrays 1 (ps ! 0) (ps ! 1) 1 P)"
    by (simp add: unpack3_wire P bindE_def p0 p1 p1')
  have s1: "?seg ps 1 = Inr (wire_arrays 1 (ps ! 1) (ps ! 2) 1 P)"
    using unpack3_wire[of 1 ?G ?G ?G "ps ! 1" "ps ! 2" 1 False] by (simp add: P bindE_def p1 p1' p2 p2')
  define S0 where "S0 = wire_arrays 1 (ps ! 0) (ps ! 1) 1 P"
  define S1 where "S1 = wire_arrays 1 (ps ! 1) (ps ! 2) 1 P"
  have s0': "?seg ps 0 = Inr S0" and s1': "?seg ps 1 = Inr S1" using s0 s1 by (simp_all add: S0_def S1_def)
  have "\<forall>s < nat 3 - 1. \<exists>S. ?seg ps s = Inr S"
  proof (intro allI impI)
    fix s :: nat assume "s < nat 3 - 1"
    then have "s = 0 \<or> s = 1" by auto
    then show "\<exists>S. ?seg ps s = Inr S"
    proof
      assume "s = 0" then show ?thesis using s0' by (intro exI[of _ S0]) simp
    next
      assume "s = 1" then show ?thesis using s1' by (intro exI[of _ S1]) simp
    qed
  qed
  with ok have "\<exists>B. ?arc = Inr B" by (rule mp)
  then obtain B where B: "?arc = Inr B" ..
  from sB have "?arc = Inr B \<longrightarrow>
        (\<exists>Bs. length Bs = nat 3 - 1 \<and> (\<forall>i < nat 3 - 1. ?seg ps i = Inr (Bs ! i)) \<and>
           B = foldl add3 (zeros ?G, zeros ?G, zeros ?G) Bs \<and> shaped B ?G \<and>
           (\<forall>i j k. in_range ?G i j k \<longrightarrow>
              (\<forall>vs. map (\<lambda>S. fst S ! i ! j ! k) Bs = map Some vs \<longrightarrow>
                    fst B ! i ! j ! k = Some (sum_list vs)) \<and>
              (None \<in> set (map (\<lambda>S. fst S ! i ! j ! k) Bs) \<longrightarrow> fst B ! i ! j ! k = None) \<and>
              (\<forall>vs. map (\<lambda>S. fst (snd S) ! i ! j ! k) Bs = map Some vs \<longrightarrow>
                    fst (snd B) ! i ! j ! k = Some (sum_list vs)) \<and>
              (None \<in> set (map (\<lambda>S. fst (snd S) ! i ! j ! k) Bs) \<longrightarrow> fst (snd B) ! i ! j ! k = None) \<and>
              (\<forall>vs. map (\<lambda>S. snd (snd S) ! i ! j ! k) Bs = map Some vs \<longrightarrow>
                    snd (snd B) ! i ! j ! k = Some (sum_list vs)) \<and>
              (None \<in> set (map (\<lambda>S. snd (snd S) ! i ! j ! k) Bs) \<longrightarrow> snd (snd B) ! i ! j ! k = None)))"
    by (rule spec)
  then obtain Bs where l: "length Bs = nat 3 - 1" and sg: "\<forall>i < nat 3 - 1. ?seg ps i = Inr (Bs ! i)"
    and ent: "\<forall>i j k. in_range ?G i j k \<longrightarrow>
              (\<forall>vs. map (\<lambda>S. fst S ! i ! j ! k) Bs = map Some vs \<longrightarrow>
                    fst B ! i ! j ! k = Some (sum_list vs)) \<and>
              (None \<in> set (map (\<lambda>S. fst S ! i ! j ! k) Bs) \<longrightarrow> fst B ! i ! j ! k = None) \<and>
              (\<forall>vs. map (\<lambda>S. fst (snd S) ! i ! j ! k) Bs = map Some vs \<longrightarrow>
                    fst (snd B) ! i ! j ! k = Some (sum_list vs)) \<and>
              (None \<in> set (map (\<lambda>S. fst (snd S) ! i ! j ! k) Bs) \<longrightarrow> fst (snd B) ! i ! j ! k = None) \<and>
              (\<forall>vs. map (\<lambda>S. snd (snd S) ! i ! j ! k) Bs = map Some vs \<longrightarrow>
                    snd (snd B) ! i ! j ! k = Some (sum_list vs)) \<and>
              (None \<in> set (map (\<lambda>S. snd (snd S) ! i ! j ! k) Bs) \<longrightarrow> snd (snd B) ! i ! j ! k = None)"
    using B by blast
  have "Bs ! 0 = S0" "Bs ! 1 = S1" using sg s0' s1' by (simp_all add: two)
  then have Bs: "Bs = [S0, S1]" using list_of_length_2[of Bs] l by (simp add: two)
  have offa: "perp_distance (2, 0, 1) (0, 2, 1) (0, 0, 0) \<noteq> 0"
    using on_line_coordinates[of "(2, 0, 1)" "(0, 2, 1)" "(0, 0, 0)"] by auto
  have offb: "perp_distance (0, 2, 1) (- 2, 0, 1) (0, 0, 0) \<noteq> 0"
    using on_line_coordinates[of "(0, 2, 1)" "(- 2, 0, 1)" "(0, 0, 0)"] by auto
  have off0: "perp_distance (ps ! 0) (ps ! Suc 0) (?G ! 0 ! 0 ! 0, ?G ! 0 ! 0 ! 0, ?G ! 0 ! 0 ! 0) \<noteq> 0"
    using offa by (simp add: p0 p1')
  have off1: "perp_distance (ps ! 1) (ps ! Suc 1) (?G ! 0 ! 0 ! 0, ?G ! 0 ! 0 ! 0, ?G ! 0 ! 0 ! 0) \<noteq> 0"
    using offb by (simp add: p1 p1' p2 p2')
  from wire_finite[OF s0' r off0] obtain a0 b0 c0 where
    v0: "fst S0 ! 0 ! 0 ! 0 = Some a0" "fst (snd S0) ! 0 ! 0 ! 0 = Some b0" "snd (snd S0) ! 0 ! 0 ! 0 = Some c0"
    unfolding finite_at_def by blast
  from wire_finite[OF s1' r off1] obtain a1 b1 c1 where
    v1: "fst S1 ! 0 ! 0 ! 0 = Some a1" "fst (snd S1) ! 0 ! 0 ! 0 = Some b1" "snd (snd S1) ! 0 ! 0 ! 0 = Some c1"
    unfolding finite_at_def by blast
  from ent r have e:
    "\<forall>vs. map (\<lambda>S. fst S ! 0 ! 0 ! 0) Bs = map Some vs \<longrightarrow> fst B ! 0 ! 0 ! 0 = Some (sum_list vs)"
    "\<forall>vs. map (\<lambda>S. fst (snd S) ! 0 ! 0 ! 0) Bs = map Some vs \<longrightarrow> fst (snd B) ! 0 ! 0 ! 0 = Some (sum_list vs)"
    "\<forall>vs. map (\<lambda>S. snd (snd S) ! 0 ! 0 ! 0) Bs = map Some vs \<longrightarrow> snd (snd B) ! 0 ! 0 ! 0 = Some (sum_list vs)"
    by blast+
  have x: "fst B ! 0 ! 0 ! 0 = Some (a0 + a1)"
    using e(1)[rule_format, of "[a0, a1]"] by (simp add: Bs v0 v1)
  have y: "fst (snd B) ! 0 ! 0 ! 0 = Some (b0 + b1)"
    using e(2)[rule_format, of "[b0, b1]"] by (simp add: Bs v0 v1)
  have z: "snd (snd B) ! 0 ! 0 ! 0 = Some (c0 + c1)"
    using e(3)[rule_format, of "[c0, c1]"] by (simp add: Bs v0 v1)
  have s0'': "unpack3 (bfield_from_thin_straight_wire 1 ?G ?G ?G (ps ! 0) (ps ! 1) 1 False False) = Inr S0"
    using s0' by simp
  have s1'': "unpack3 (bfield_from_thin_straight_wire 1 ?G ?G ?G (ps ! 1) (ps ! 2) 1 False False) = Inr S1"
    using s1' p2' by (simp add: numeral_2_eq_2)
  have len3: "length ps = 3" using len by simp
  show ?thesis
    apply (rule exI[of _ ps], rule exI[of _ S0], rule exI[of _ S1], rule exI[of _ B])
    using g len3 p0 p1 p2 s0'' s1'' B x y z v0 v1 by simp
qed

end
